theory Spec2Isabelle
  imports Complex_Main "HOL-Library.AList"
begin

section \<open>Python values, exceptions and the operations the client applies to them\<close>

text \<open>
  A response body is whatever \<^verbatim>\<open>response.json()\<close> returns (a dict, a list, a str, a
  number, a bool or None) or, when parsing fails, the str \<^verbatim>\<open>response.text\<close>. Python
  does not tell the two apart, so both are values of one type. A dict is an association
  list in insertion order; its keys are taken to be distinct, as in a Python dict, and
  a lookup reads the first pair of a key.
\<close>

datatype pyval =
    PNone
  | PBool bool
  | PInt int
  | PFloat real
  | PStr string
  | PList "pyval list"
  | PDict "(string \<times> pyval) list"

text \<open>
  The exceptions that the modelled code can meet. \<open>ConnectionError\<close> stands for
  \<^verbatim>\<open>requests.exceptions.ConnectionError\<close> and its subclasses, \<open>RequestException\<close> for
  every other fault of the transport (retries exhausted, timeout, bad URL), and
  \<open>SystemExit n\<close> is what \<^verbatim>\<open>exit(n)\<close> raises.
\<close>

datatype py_error =
    AttributeError
  | KeyError
  | TypeError
  | ConnectionError
  | RequestException string
  | SystemExit int

text \<open>Truth value of a Python object, as \<^verbatim>\<open>not x\<close>, \<^verbatim>\<open>x or y\<close> and \<^verbatim>\<open>if x\<close> read it.\<close>

fun truthy :: "pyval \<Rightarrow> bool" where
  "truthy PNone = False"
| "truthy (PBool b) = b"
| "truthy (PInt n) = (n \<noteq> 0)"
| "truthy (PFloat r) = (r \<noteq> 0)"
| "truthy (PStr s) = (s \<noteq> [])"
| "truthy (PList xs) = (xs \<noteq> [])"
| "truthy (PDict d) = (d \<noteq> [])"

text \<open>\<^verbatim>\<open>x.get(k, default)\<close>: only a dict has the method.\<close>

fun py_get :: "pyval \<Rightarrow> string \<Rightarrow> pyval \<Rightarrow> py_error + pyval" where
  "py_get (PDict d) k dflt = Inr (case map_of d k of None \<Rightarrow> dflt | Some v \<Rightarrow> v)"
| "py_get PNone k dflt = Inl AttributeError"
| "py_get (PBool b) k dflt = Inl AttributeError"
| "py_get (PInt n) k dflt = Inl AttributeError"
| "py_get (PFloat r) k dflt = Inl AttributeError"
| "py_get (PStr s) k dflt = Inl AttributeError"
| "py_get (PList xs) k dflt = Inl AttributeError"

text \<open>
  \<^verbatim>\<open>x[k]\<close> for a str key \<open>k\<close>: KeyError on a dict without the key, TypeError on every
  other value (a str or a list wants an integer index, the rest cannot be subscripted).
\<close>

fun py_getitem :: "pyval \<Rightarrow> string \<Rightarrow> py_error + pyval" where
  "py_getitem (PDict d) k = (case map_of d k of None \<Rightarrow> Inl KeyError | Some v \<Rightarrow> Inr v)"
| "py_getitem PNone k = Inl TypeError"
| "py_getitem (PBool b) k = Inl TypeError"
| "py_getitem (PInt n) k = Inl TypeError"
| "py_getitem (PFloat r) k = Inl TypeError"
| "py_getitem (PStr s) k = Inl TypeError"
| "py_getitem (PList xs) k = Inl TypeError"

text \<open>
  \<^verbatim>\<open>for x in v\<close>: a list yields its elements, a dict its keys, a str its characters;
  nothing else is iterable.
\<close>

fun py_iter :: "pyval \<Rightarrow> py_error + pyval list" where
  "py_iter (PList xs) = Inr xs"
| "py_iter (PDict d) = Inr (map (\<lambda>kv. PStr (fst kv)) d)"
| "py_iter (PStr s) = Inr (map (\<lambda>c. PStr [c]) s)"
| "py_iter PNone = Inl TypeError"
| "py_iter (PBool b) = Inl TypeError"
| "py_iter (PInt n) = Inl TypeError"
| "py_iter (PFloat r) = Inl TypeError"

text \<open>
  \<^verbatim>\<open>str.upper()\<close> and \<^verbatim>\<open>str.lower()\<close> on the ASCII letters; every other byte is
  left as it is.
\<close>

definition ascii_lowercase :: string where
  "ascii_lowercase = ''abcdefghijklmnopqrstuvwxyz''"

definition ascii_uppercase :: string where
  "ascii_uppercase = ''ABCDEFGHIJKLMNOPQRSTUVWXYZ''"

definition upper_char :: "char \<Rightarrow> char" where
  "upper_char c = (case map_of (zip ascii_lowercase ascii_uppercase) c of None \<Rightarrow> c | Some u \<Rightarrow> u)"

definition lower_char :: "char \<Rightarrow> char" where
  "lower_char c = (case map_of (zip ascii_uppercase ascii_lowercase) c of None \<Rightarrow> c | Some l \<Rightarrow> l)"

definition upper :: "string \<Rightarrow> string" where
  "upper s = map upper_char s"

definition lower :: "string \<Rightarrow> string" where
  "lower s = map lower_char s"

text \<open>A str-or-None inside an f-string: None is rendered as the word None.\<close>

definition fmt_opt :: "string option \<Rightarrow> string" where
  "fmt_opt u = (case u of None \<Rightarrow> ''None'' | Some v \<Rightarrow> v)"

text \<open>Truth value of a str-or-None attribute.\<close>

definition truthy_opt :: "string option \<Rightarrow> bool" where
  "truthy_opt u = (case u of None \<Rightarrow> False | Some v \<Rightarrow> v \<noteq> [])"

section \<open>Transport: sessions, requests, responses\<close>

text \<open>
  \<^verbatim>\<open>requests_retry_session\<close> of utils.py builds a session whose adapter carries a
  \<^verbatim>\<open>Retry\<close> object. The function accepts a \<^verbatim>\<open>status\<close> argument and does not pass it
  on; the record holds what \<^verbatim>\<open>Retry\<close> receives. The optional \<^verbatim>\<open>session\<close> argument
  is never given in this repository and is left out.
\<close>

record retry =
  total :: nat
  read :: nat
  connect :: nat
  backoff_factor :: nat
  status_forcelist :: "int list"
  method_whitelist :: bool

record session =
  max_retries :: retry

definition requests_retry_session ::
  "nat \<Rightarrow> nat \<Rightarrow> nat \<Rightarrow> nat \<Rightarrow> nat \<Rightarrow> int list \<Rightarrow> session" where
  "requests_retry_session total' read' connect' status' backoff_factor' status_forcelist' =
     \<lparr>max_retries =
        \<lparr>total = total', read = read', connect = connect',
         backoff_factor = backoff_factor', status_forcelist = status_forcelist',
         method_whitelist = False\<rparr>\<rparr>"

text \<open>The defaults of the keyword arguments.\<close>

definition default_status_forcelist :: "int list" where
  "default_status_forcelist = [500, 502, 503, 504]"

definition default_session :: session where
  "default_session = requests_retry_session 10 10 1 10 5 default_status_forcelist"

type_synonym auth = "string \<times> string"

text \<open>
  What a call \<^verbatim>\<open>getattr(session, name)(url, **request_kwargs)\<close> hands to the
  session: the attribute name, the URL (None when the caller gave none) and the keyword
  arguments.
\<close>

record request =
  rq_method :: string
  rq_url :: "string option"
  rq_auth :: "auth option"
  rq_headers :: "(string \<times> string) list"
  rq_json :: "pyval option"
  rq_extra :: "(string \<times> pyval) list"

text \<open>
  The fields of \<^verbatim>\<open>requests.Response\<close> that the client reads. \<open>resp_json\<close> is the
  value of \<^verbatim>\<open>response.json()\<close>, None when it raises JSONDecodeError.
\<close>

record response =
  status_code :: int
  resp_url :: string
  resp_text :: string
  resp_json :: "pyval option"

text \<open>
  The libraries the code calls are parameters of the model: \<open>net\<close> is the session
  method, which reads and changes the world \<open>'w\<close> (the server) and either raises or
  returns a response; \<open>unquote\<close> is \<^verbatim>\<open>urllib.parse.unquote\<close>, \<open>pformat\<close> is
  \<^verbatim>\<open>pprint.pformat\<close> and \<open>repr\<close> is Python's rendering of a value that is not
  a str.
\<close>

record 'w env =
  net :: "session \<Rightarrow> 'w \<Rightarrow> request \<Rightarrow> (py_error + response) \<times> 'w"
  unquote :: "string \<Rightarrow> string"
  pformat :: "pyval \<Rightarrow> string"
  repr :: "pyval \<Rightarrow> string"

datatype level = Debug | Info | Warning | Error

text \<open>
  The state that the code changes: the world behind the transport, the calls made on a
  session so far (oldest first) and the records handed to the loggers.
\<close>

record 'w st =
  world :: 'w
  calls :: "request list"
  logs :: "(level \<times> string) list"

definition log :: "level \<Rightarrow> string \<Rightarrow> 'w st \<Rightarrow> 'w st" where
  "log lv msg s = s\<lparr>logs := logs s @ [(lv, msg)]\<rparr>"

definition call_session ::
  "'w env \<Rightarrow> session \<Rightarrow> request \<Rightarrow> 'w st \<Rightarrow> (py_error + response) \<times> 'w st" where
  "call_session env ses rq s =
     (case net env ses (world s) rq of
        (r, w') \<Rightarrow> (r, s\<lparr>world := w', calls := calls s @ [rq]\<rparr>))"

text \<open>\<^verbatim>\<open>str(v)\<close> as an f-string applies it: a str is itself.\<close>

definition py_str :: "'w env \<Rightarrow> pyval \<Rightarrow> string" where
  "py_str env v = (case v of PStr s \<Rightarrow> s | _ \<Rightarrow> repr env v)"

section \<open>The client (client.py)\<close>

record client =
  base_url :: "string option"
  status_endpoint :: "string option"
  auth :: "auth option"
  fhir_version :: "string option"
  session :: session

text \<open>config.py: \<^verbatim>\<open>FHIR_VERSION = '4.0.0'\<close>, the default of the constructor.\<close>

definition FHIR_VERSION :: string where
  "FHIR_VERSION = ''4.0.0''"

definition FhirApiClient ::
  "string option \<Rightarrow> auth option \<Rightarrow> string option \<Rightarrow> string option \<Rightarrow> client" where
  "FhirApiClient base_url' auth' fhir_version' status_endpoint' =
     \<lparr>base_url = base_url', status_endpoint = status_endpoint', auth = auth',
      fhir_version = fhir_version', session = default_session\<rparr>"

text \<open>The keyword arguments of \<^verbatim>\<open>send_request\<close>; a key that is absent is None.\<close>

record kwargs =
  kw_auth :: "auth option"
  kw_headers :: "(string \<times> string) list option"
  kw_json :: "pyval option"
  kw_extra :: "(string \<times> pyval) list"

definition no_kwargs :: kwargs where
  "no_kwargs = \<lparr>kw_auth = None, kw_headers = None, kw_json = None, kw_extra = []\<rparr>"

text \<open>\<^verbatim>\<open>_fhir_version_headers\<close>; \<^verbatim>\<open>split('.')[0]\<close> is the text before the first dot.\<close>

definition fhir_version_headers :: "client \<Rightarrow> (string \<times> string) list" where
  "fhir_version_headers c =
     (if \<not> truthy_opt (fhir_version c) then []
      else
        (let major_version = takeWhile (\<lambda>ch. ch \<noteq> CHR ''.'') (the (fhir_version c))
         in [(''Content-Type'',
              ''application/fhir+json; fhirVersion='' @ major_version @ ''.0'')]))"

text \<open>\<^verbatim>\<open>_response_content\<close>: the parsed body, or the text when parsing raised.\<close>

definition response_content :: "response \<Rightarrow> pyval" where
  "response_content r = (case resp_json r of Some v \<Rightarrow> v | None \<Rightarrow> PStr (resp_text r))"

text \<open>
  \<^verbatim>\<open>_errors_from_response\<close>. The list comprehension reads \<^verbatim>\<open>issue['severity']\<close> of
  every element, in order, and raises at the first element that has none.
\<close>

fun collect_errors :: "pyval list \<Rightarrow> py_error + pyval list" where
  "collect_errors [] = Inr []"
| "collect_errors (issue # rest) =
     (case py_getitem issue ''severity'' of
        Inl e \<Rightarrow> Inl e
      | Inr sev \<Rightarrow>
          (case collect_errors rest of
             Inl e \<Rightarrow> Inl e
           | Inr es \<Rightarrow> Inr (if sev = PStr ''error'' then issue # es else es)))"

definition errors_from_response :: "pyval \<Rightarrow> py_error + pyval list" where
  "errors_from_response response_body =
     (let body = (if truthy response_body then response_body else PDict [])
      in case py_get body ''issue'' (PList []) of
           Inl e \<Rightarrow> Inl e
         | Inr issues \<Rightarrow>
             (case py_iter issues of
                Inl e \<Rightarrow> Inl e
              | Inr xs \<Rightarrow> collect_errors xs))"

text \<open>The table \<^verbatim>\<open>success_status\<close> of \<^verbatim>\<open>send_request\<close>.\<close>

definition success_status :: "(string \<times> int set) list" where
  "success_status =
     [(''GET'', {200}), (''POST'', {200, 201}), (''PUT'', {200, 201}), (''DELETE'', {204, 200})]"

text \<open>The result dict of \<^verbatim>\<open>send_request\<close>.\<close>

record result =
  res_status_code :: int
  res_request_url :: string
  res_response :: pyval

text \<open>\<^verbatim>\<open>headers.update(d)\<close> on association lists.\<close>

definition dict_update :: "(string \<times> 'v) list \<Rightarrow> (string \<times> 'v) list \<Rightarrow> (string \<times> 'v) list" where
  "dict_update d new = fold (\<lambda>kv. AList.update (fst kv) (snd kv)) new d"

text \<open>
  The request that \<^verbatim>\<open>send_request\<close> builds before it calls the session: the client's
  auth replaces the caller's when the client has one, and the version header is added
  when the caller's headers have no Content-Type.
\<close>

definition build_request :: "client \<Rightarrow> string \<Rightarrow> string option \<Rightarrow> kwargs \<Rightarrow> request" where
  "build_request c request_method_name url request_kwargs =
     (let kw = (if auth c \<noteq> None then request_kwargs\<lparr>kw_auth := auth c\<rparr> else request_kwargs);
          headers = (case kw_headers kw of None \<Rightarrow> [] | Some h \<Rightarrow> h);
          headers' = (if ''Content-Type'' \<in> set (map fst headers) then headers
                      else dict_update headers (fhir_version_headers c))
      in \<lparr>rq_method = lower request_method_name, rq_url = url, rq_auth = kw_auth kw,
          rq_headers = headers', rq_json = kw_json kw, rq_extra = kw_extra kw\<rparr>)"

definition send_request ::
  "'w env \<Rightarrow> client \<Rightarrow> string \<Rightarrow> string option \<Rightarrow> kwargs \<Rightarrow> 'w st
     \<Rightarrow> (py_error + bool \<times> result) \<times> 'w st" where
  "send_request env c request_method_name url request_kwargs s =
     (case call_session env (session c) (build_request c request_method_name url request_kwargs) s of
        (Inl e, s1) \<Rightarrow> (Inl e, s1)
      | (Inr response, s1) \<Rightarrow>
          (let resp_content = response_content response;
               name = upper request_method_name;
               request_url = unquote env (resp_url response);
               res = \<lparr>res_status_code = status_code response, res_request_url = request_url,
                      res_response = resp_content\<rparr>
           in if status_code response
                   \<in> (case map_of success_status name of None \<Rightarrow> {} | Some S \<Rightarrow> S)
              then
                (case errors_from_response resp_content of
                   Inl e \<Rightarrow> (Inl e, s1)
                 | Inr errors \<Rightarrow>
                     if errors = [] then
                       (Inr (True, res),
                        log Debug (name @ '' '' @ request_url @ '' succeeded. Response:''
                                   @ [CHR 0x0A] @ pformat env resp_content) s1)
                     else
                       (Inr (False, res),
                        log Debug (name @ '' '' @ request_url @ '' failed. Caused by:''
                                   @ [CHR 0x0A] @ pformat env resp_content) s1))
              else
                (Inr (False, res),
                 log Debug (name @ '' '' @ request_url @ '' failed, status ''
                            @ repr env (PInt (status_code response)) @ ''. Caused by:''
                            @ [CHR 0x0A] @ pformat env resp_content) s1)))"

text \<open>
  The items of a bulk write. The docstring of \<^verbatim>\<open>post_or_put\<close> fixes the keys of a
  resource dict; \<open>rd_endpoint\<close> is None when the dict has no \<^verbatim>\<open>endpoint\<close> key.
\<close>

record resource_dict =
  rd_content :: pyval
  rd_resource_type :: string
  rd_filename :: string
  rd_filepath :: string
  rd_endpoint :: "string option"

text \<open>The two marks of the log lines of \<^verbatim>\<open>post_or_put\<close>, as UTF-8 bytes.\<close>

definition check_mark :: string where
  "check_mark = [CHR 0xE2, CHR 0x9C, CHR 0x85]"

definition cross_mark :: string where
  "cross_mark = [CHR 0xE2, CHR 0x9D, CHR 0x8C]"

definition post_or_put ::
  "'w env \<Rightarrow> client \<Rightarrow> string option \<Rightarrow> resource_dict \<Rightarrow> string \<Rightarrow> 'w st
     \<Rightarrow> (py_error + bool \<times> result) \<times> 'w st" where
  "post_or_put env c endpoint rd method s =
     (let filename = rd_filename rd;
          resource = rd_content rd;
          resource_type = rd_resource_type rd;
          s0 = log Info (upper method @ ''ing FHIR '' @ resource_type @ '' from '' @ filename) s
      in case send_request env c method endpoint (no_kwargs\<lparr>kw_json := Some resource\<rparr>) s0 of
           (Inl e, s1) \<Rightarrow> (Inl e, s1)
         | (Inr (success, res), s1) \<Rightarrow>
             (Inr (success, res),
              log Info
                ((if success then check_mark else cross_mark) @ '' '' @ upper method @ '' ''
                 @ filename @ '' to '' @ fmt_opt endpoint
                 @ (if success then '' succeeded'' else '' failed'')) s1))"

text \<open>
  \<^verbatim>\<open>results = defaultdict(dict)\<close> with the two keys the loop writes; a key never
  written is the empty dict. \<^verbatim>\<open>d[k] = v\<close> is \<open>AList.update\<close>: it replaces the
  value of a key that is there and appends a new key.
\<close>

record results =
  res_success :: "(string \<times> result) list"
  res_errors :: "(string \<times> result) list"

fun post_or_put_loop ::
  "'w env \<Rightarrow> client \<Rightarrow> string option \<Rightarrow> string \<Rightarrow> resource_dict list
     \<Rightarrow> bool \<Rightarrow> results \<Rightarrow> 'w st \<Rightarrow> (py_error + bool \<times> results) \<times> 'w st" where
  "post_or_put_loop env c endpoint method [] success rs s = (Inr (success, rs), s)"
| "post_or_put_loop env c endpoint method (rd # rds) success rs s =
     (let filepath = rd_filepath rd;
          ep = (case rd_endpoint rd of None \<Rightarrow> endpoint | Some e \<Rightarrow> Some e)
      in case post_or_put env c ep rd method s of
           (Inl e, s1) \<Rightarrow> (Inl e, s1)
         | (Inr (success_one, res), s1) \<Rightarrow>
             post_or_put_loop env c endpoint method rds (success_one \<and> success)
               (if success_one
                then rs\<lparr>res_success := AList.update filepath res (res_success rs)\<rparr>
                else rs\<lparr>res_errors := AList.update filepath res (res_errors rs)\<rparr>)
               s1)"

definition post_or_put_all ::
  "'w env \<Rightarrow> client \<Rightarrow> resource_dict list \<Rightarrow> string option \<Rightarrow> string \<Rightarrow> 'w st
     \<Rightarrow> (py_error + bool \<times> results) \<times> 'w st" where
  "post_or_put_all env c resource_dicts endpoint method s =
     post_or_put_loop env c endpoint method resource_dicts True
       \<lparr>res_success = [], res_errors = []\<rparr> s"

text \<open>The loop of \<^verbatim>\<open>delete_all\<close> over the entries of the fetched bundle.\<close>

fun delete_loop ::
  "'w env \<Rightarrow> client \<Rightarrow> auth option \<Rightarrow> pyval list \<Rightarrow> bool \<Rightarrow> 'w st
     \<Rightarrow> (py_error + bool) \<times> 'w st" where
  "delete_loop env c a [] success s = (Inr success, s)"
| "delete_loop env c a (entry # entries) success s =
     (case py_getitem entry ''resource'' of
        Inl e \<Rightarrow> (Inl e, s)
      | Inr rs \<Rightarrow>
          (case py_get rs ''resourceType'' PNone of
             Inl e \<Rightarrow> (Inl e, s)
           | Inr t \<Rightarrow>
               if t = PStr ''OperationOutcome'' then delete_loop env c a entries success s
               else
                 (case py_getitem rs ''resourceType'' of
                    Inl e \<Rightarrow> (Inl e, s)
                  | Inr rt \<Rightarrow>
                      (case py_getitem rs ''id'' of
                         Inl e \<Rightarrow> (Inl e, s)
                       | Inr rid \<Rightarrow>
                           (let url = fmt_opt (base_url c) @ ''/'' @ py_str env rt @ ''/''
                                      @ py_str env rid;
                                s0 = log Debug (''Deleting '' @ url) s
                            in case send_request env c ''delete'' (Some url)
                                      (no_kwargs\<lparr>kw_auth := a\<rparr>) s0 of
                                 (Inl e, s1) \<Rightarrow> (Inl e, s1)
                               | (Inr (success_delete, res), s1) \<Rightarrow>
                                   delete_loop env c a entries (success_delete \<and> success) s1)))))"

text \<open>
  \<^verbatim>\<open>delete_all\<close>. The argument of the debug line, \<^verbatim>\<open>resp_content.get("total")\<close>, is
  evaluated before the test of \<^verbatim>\<open>success\<close>, whatever the log level is.
\<close>

definition delete_all ::
  "'w env \<Rightarrow> client \<Rightarrow> string \<Rightarrow> kwargs \<Rightarrow> 'w st \<Rightarrow> (py_error + bool) \<times> 'w st" where
  "delete_all env c endpoint request_kwargs s =
     (let s0 = log Info ''Begin deleting resources ...'' s;
          kw = (if kw_auth request_kwargs = None then request_kwargs\<lparr>kw_auth := auth c\<rparr>
                else request_kwargs)
      in case send_request env c ''get'' (Some endpoint) kw s0 of
           (Inl e, s1) \<Rightarrow> (Inl e, s1)
         | (Inr (success, res), s1) \<Rightarrow>
             (let resp_content = res_response res;
                  request_url = res_request_url res
              in case py_get resp_content ''total'' PNone of
                   Inl e \<Rightarrow> (Inl e, s1)
                 | Inr n \<Rightarrow>
                     (let s2 = log Debug (''Fetched '' @ py_str env n @ '' item(s) from ''
                                          @ request_url) s1
                      in if \<not> success then (Inr False, s2)
                         else
                           (case py_get resp_content ''entry'' (PList []) of
                              Inl e \<Rightarrow> (Inl e, s2)
                            | Inr entries \<Rightarrow>
                                (case py_iter entries of
                                   Inl e \<Rightarrow> (Inl e, s2)
                                 | Inr es \<Rightarrow> delete_loop env c (kw_auth kw) es success s2)))))"

section \<open>The status probe (utils.py and client.py)\<close>

text \<open>
  \<^verbatim>\<open>check_service_status\<close> of utils.py: a GET on a session of its own, built with
  \<^verbatim>\<open>total=1, connect=1\<close>. Only a ConnectionError is caught.
\<close>

definition probe_session :: session where
  "probe_session = requests_retry_session 1 10 1 10 5 default_status_forcelist"

definition check_service_status ::
  "'w env \<Rightarrow> string option \<Rightarrow> bool \<Rightarrow> kwargs \<Rightarrow> 'w st \<Rightarrow> (py_error + bool) \<times> 'w st" where
  "check_service_status env url exit_on_down request_kwargs s =
     (let rq = \<lparr>rq_method = ''get'', rq_url = url, rq_auth = kw_auth request_kwargs,
                 rq_headers = (case kw_headers request_kwargs of None \<Rightarrow> [] | Some h \<Rightarrow> h),
                 rq_json = kw_json request_kwargs, rq_extra = kw_extra request_kwargs\<rparr>
      in case call_session env probe_session rq s of
           (Inl e, s1) \<Rightarrow>
             if e = ConnectionError then
               (let s2 = log Error (''Connection error! Is service at '' @ fmt_opt url
                                    @ '' up and running?'') s1
                in if exit_on_down then (Inl (SystemExit 1), log Info ''Exiting program!'' s2)
                   else (Inr True, s2))
             else (Inl e, s1)
         | (Inr response, s1) \<Rightarrow>
             (let is_down = (status_code response \<ge> 300);
                  s2 = (if is_down
                        then log Warning (''Service '' @ fmt_opt url
                               @ '' is up but returned non 200 status. Caused by ''
                               @ resp_text response) s1
                        else s1)
              in if exit_on_down \<and> is_down
                 then (Inl (SystemExit 1), log Info ''Exiting program!'' s2)
                 else (Inr is_down, s2)))"

text \<open>
  \<^verbatim>\<open>FhirApiClient.check_service_status\<close>: it calls the function above without
  \<^verbatim>\<open>exit_on_down\<close>, logs the caller's message and exits itself.
\<close>

definition client_check_service_status ::
  "'w env \<Rightarrow> client \<Rightarrow> bool \<Rightarrow> string option \<Rightarrow> 'w st \<Rightarrow> (py_error + unit) \<times> 'w st" where
  "client_check_service_status env c exit_on_down log_msg s =
     (case check_service_status env
             (if truthy_opt (status_endpoint c) then status_endpoint c else base_url c) False
             \<lparr>kw_auth = auth c, kw_headers = Some (fhir_version_headers c), kw_json = None,
              kw_extra = []\<rparr> s of
        (Inl e, s1) \<Rightarrow> (Inl e, s1)
      | (Inr down, s1) \<Rightarrow>
          if down then
            (let s2 = log Error (fmt_opt log_msg) s1
             in if exit_on_down then (Inl (SystemExit 1), s2) else (Inr (), s2))
          else (Inr (), s1))"

section \<open>The specification's vocabulary\<close>

text \<open>
  The accepted status codes as the specification lists them, to be compared with the
  table \<open>success_status\<close> of the code.
\<close>

definition AcceptedSet :: "string \<Rightarrow> int set" where
  "AcceptedSet m =
     (if m = ''GET'' then {200}
      else if m = ''POST'' then {200, 201}
      else if m = ''PUT'' then {200, 201}
      else if m = ''DELETE'' then {200, 204}
      else {})"

text \<open>
  An issue is an entry of the body's \<^verbatim>\<open>issue\<close> collection with a severity field; it
  is an error issue when that field is the str \<^verbatim>\<open>error\<close>.
\<close>

definition is_object :: "pyval \<Rightarrow> bool" where
  "is_object v = (case v of PDict fs \<Rightarrow> True | _ \<Rightarrow> False)"

definition has_severity :: "pyval \<Rightarrow> bool" where
  "has_severity v = (case v of PDict fs \<Rightarrow> map_of fs ''severity'' \<noteq> None | _ \<Rightarrow> False)"

definition is_error_issue :: "pyval \<Rightarrow> bool" where
  "is_error_issue v =
     (case v of PDict fs \<Rightarrow> map_of fs ''severity'' = Some (PStr ''error'') | _ \<Rightarrow> False)"

text \<open>
  The issue collection of a body that the protocol allows: an empty body (no content, an
  empty object, an empty text) has none, an object has the list under its \<^verbatim>\<open>issue\<close>
  key or none. Every other body (a text that is not empty, a list, a number, an object
  whose \<^verbatim>\<open>issue\<close> is not a list) has no issue collection to speak of.
\<close>

definition issue_entries :: "pyval \<Rightarrow> pyval list option" where
  "issue_entries body =
     (if \<not> truthy body then Some []
      else
        (case body of
           PDict d \<Rightarrow>
             (case map_of d ''issue'' of
                None \<Rightarrow> Some []
              | Some (PList es) \<Rightarrow> Some es
              | Some _ \<Rightarrow> None)
         | _ \<Rightarrow> None))"

text \<open>The Operation Result that belongs to a response.\<close>

definition result_of :: "'w env \<Rightarrow> response \<Rightarrow> result" where
  "result_of env r =
     \<lparr>res_status_code = status_code r, res_request_url = unquote env (resp_url r),
      res_response = response_content r\<rparr>"

text \<open>The headers a caller supplied, and the major version of a version string.\<close>

definition supplied_headers :: "kwargs \<Rightarrow> (string \<times> string) list" where
  "supplied_headers kw = (case kw_headers kw of None \<Rightarrow> [] | Some h \<Rightarrow> h)"

definition major_version :: "string \<Rightarrow> string" where
  "major_version v = takeWhile (\<lambda>ch. ch \<noteq> CHR ''.'') v"

section \<open>A scripted server, for the concrete runs\<close>

text \<open>
  The world is the list of answers the server will give, one per call, whatever the
  request is; with no answer left the transport raises.
\<close>

definition scripted ::
  "session \<Rightarrow> (py_error + response) list \<Rightarrow> request
     \<Rightarrow> (py_error + response) \<times> (py_error + response) list" where
  "scripted ses w rq =
     (case w of [] \<Rightarrow> (Inl (RequestException ''no answer''), []) | a # rest \<Rightarrow> (a, rest))"

definition scripted_env :: "(py_error + response) list env" where
  "scripted_env =
     \<lparr>net = scripted, unquote = (\<lambda>u. u), pformat = (\<lambda>v. ''...''), repr = (\<lambda>v. ''?'')\<rparr>"

definition init_st :: "'w \<Rightarrow> 'w st" where
  "init_st w = \<lparr>world = w, calls = [], logs = []\<rparr>"

definition json_response :: "int \<Rightarrow> pyval \<Rightarrow> response" where
  "json_response code v =
     \<lparr>status_code = code, resp_url = ''http://localhost:8000/Patient'', resp_text = [],
      resp_json = Some v\<rparr>"

definition text_response :: "int \<Rightarrow> string \<Rightarrow> response" where
  "text_response code t =
     \<lparr>status_code = code, resp_url = ''http://localhost:8000/Patient'', resp_text = t,
      resp_json = None\<rparr>"

definition demo_client :: client where
  "demo_client = FhirApiClient (Some ''http://localhost:8000'') None (Some FHIR_VERSION) None"

definition patient_url :: "string option" where
  "patient_url = Some ''http://localhost:8000/Patient''"

text \<open>Clients for the concrete runs: one with an auth of its own, one with no protocol version.\<close>

definition auth_client :: client where
  "auth_client =
     FhirApiClient (Some ''http://localhost:8000'') (Some (''svc'', ''secret''))
       (Some FHIR_VERSION) None"

definition unversioned_client :: client where
  "unversioned_client = FhirApiClient (Some ''http://localhost:8000'') None None None"

text \<open>The header the specification describes for a version string \<open>v\<close>.\<close>

definition version_header :: "string \<Rightarrow> string \<times> string" where
  "version_header v =
     (''Content-Type'', ''application/fhir+json; fhirVersion='' @ major_version v @ ''.0'')"

section \<open>Vocabulary of the bulk write\<close>

text \<open>The endpoint of an item: its own, or else the one of the batch.\<close>

definition item_endpoint :: "resource_dict \<Rightarrow> string option \<Rightarrow> string option" where
  "item_endpoint rd endpoint = (case rd_endpoint rd of None \<Rightarrow> endpoint | Some e \<Rightarrow> Some e)"

text \<open>
  The specification's bulk write: the executor is invoked once for each item, in input
  order, and the outcomes are collected. A hard error of one invocation ends the run, as
  in the code.
\<close>

fun post_or_put_each ::
  "'w env \<Rightarrow> client \<Rightarrow> string option \<Rightarrow> string \<Rightarrow> resource_dict list \<Rightarrow> 'w st
     \<Rightarrow> (py_error + (bool \<times> result) list) \<times> 'w st" where
  "post_or_put_each env c endpoint method [] s = (Inr [], s)"
| "post_or_put_each env c endpoint method (rd # rds) s =
     (case post_or_put env c (item_endpoint rd endpoint) rd method s of
        (Inl e, s1) \<Rightarrow> (Inl e, s1)
      | (Inr out, s1) \<Rightarrow>
          (case post_or_put_each env c endpoint method rds s1 of
             (Inl e, s2) \<Rightarrow> (Inl e, s2)
           | (Inr outs, s2) \<Rightarrow> (Inr (out # outs), s2)))"

text \<open>
  The entries that the items with outcome \<open>b\<close> leave in a mapping, keyed by file path,
  and the number \<open>k\<close> of items that failed.
\<close>

definition routed ::
  "bool \<Rightarrow> resource_dict list \<Rightarrow> (bool \<times> result) list \<Rightarrow> (string \<times> result) list" where
  "routed b rds outs =
     map (\<lambda>p. (rd_filepath (fst p), snd (snd p))) (filter (\<lambda>p. fst (snd p) = b) (zip rds outs))"

definition failed_count :: "(bool \<times> result) list \<Rightarrow> nat" where
  "failed_count outs = length (filter (\<lambda>out. \<not> fst out) outs)"

text \<open>Items and answers for the concrete runs.\<close>

definition patient_item :: "string \<Rightarrow> resource_dict" where
  "patient_item f =
     \<lparr>rd_content = PDict [(''resourceType'', PStr ''Patient'')], rd_resource_type = ''Patient'',
      rd_filename = f, rd_filepath = ''/data/'' @ f, rd_endpoint = None\<rparr>"

definition created :: response where
  "created = json_response 201 (PDict [])"

definition bad_request :: response where
  "bad_request = json_response 400 (PDict [])"

definition items3 :: "resource_dict list" where
  "items3 = [patient_item ''a.json'', patient_item ''b.json'', patient_item ''c.json'']"

section \<open>Vocabulary of the cascade delete\<close>

text \<open>The keyword arguments of the fetch: the caller's, with the client's auth when the caller gave none.\<close>

definition fetch_kwargs :: "client \<Rightarrow> kwargs \<Rightarrow> kwargs" where
  "fetch_kwargs c kw = (if kw_auth kw = None then kw\<lparr>kw_auth := auth c\<rparr> else kw)"

text \<open>
  An entry of the fetched collection carries a resource object; the resource is a
  diagnostic artifact when its type is \<^verbatim>\<open>OperationOutcome\<close>. An entry is well formed
  when its resource is such an artifact or has both a type and an id.
\<close>

definition resource_of :: "pyval \<Rightarrow> (string \<times> pyval) list option" where
  "resource_of entry =
     (case entry of
        PDict e \<Rightarrow> (case map_of e ''resource'' of Some (PDict rs) \<Rightarrow> Some rs | _ \<Rightarrow> None)
      | _ \<Rightarrow> None)"

definition is_outcome :: "(string \<times> pyval) list \<Rightarrow> bool" where
  "is_outcome rs = (map_of rs ''resourceType'' = Some (PStr ''OperationOutcome''))"

definition well_formed_entry :: "pyval \<Rightarrow> bool" where
  "well_formed_entry entry =
     (case resource_of entry of
        None \<Rightarrow> False
      | Some rs \<Rightarrow>
          is_outcome rs \<or> (map_of rs ''resourceType'' \<noteq> None \<and> map_of rs ''id'' \<noteq> None))"

text \<open>
  The per-resource URL (base URL, resource type, id) and the URLs of the entries that
  are not diagnostic artifacts, in the order of the collection.
\<close>

definition delete_url :: "'w env \<Rightarrow> client \<Rightarrow> (string \<times> pyval) list \<Rightarrow> string" where
  "delete_url env c rs =
     fmt_opt (base_url c) @ ''/''
     @ (case map_of rs ''resourceType'' of None \<Rightarrow> [] | Some t \<Rightarrow> py_str env t) @ ''/''
     @ (case map_of rs ''id'' of None \<Rightarrow> [] | Some i \<Rightarrow> py_str env i)"

definition delete_targets :: "'w env \<Rightarrow> client \<Rightarrow> pyval list \<Rightarrow> string list" where
  "delete_targets env c es =
     map (delete_url env c) (filter (\<lambda>rs. \<not> is_outcome rs) (List.map_filter resource_of es))"

text \<open>The DELETE request for a URL, and the specification's cascade: one DELETE per URL,
  in order, whatever the outcomes of the earlier ones; only a hard error ends it.\<close>

definition delete_request :: "client \<Rightarrow> auth option \<Rightarrow> string \<Rightarrow> request" where
  "delete_request c a url = build_request c ''delete'' (Some url) (no_kwargs\<lparr>kw_auth := a\<rparr>)"

fun delete_each ::
  "'w env \<Rightarrow> client \<Rightarrow> auth option \<Rightarrow> string list \<Rightarrow> 'w st
     \<Rightarrow> (py_error + bool list) \<times> 'w st" where
  "delete_each env c a [] s = (Inr [], s)"
| "delete_each env c a (url # urls) s =
     (case send_request env c ''delete'' (Some url) (no_kwargs\<lparr>kw_auth := a\<rparr>)
             (log Debug (''Deleting '' @ url) s) of
        (Inl e, s1) \<Rightarrow> (Inl e, s1)
      | (Inr (ok, res), s1) \<Rightarrow>
          (case delete_each env c a urls s1 of
             (Inl e, s2) \<Rightarrow> (Inl e, s2)
           | (Inr oks, s2) \<Rightarrow> (Inr (ok # oks), s2)))"

text \<open>The entries of a fetched object, and the state after the line that logs the fetch.\<close>

definition fetched_entries :: "(string \<times> pyval) list \<Rightarrow> pyval list option" where
  "fetched_entries d =
     (case map_of d ''entry'' of
        None \<Rightarrow> Some []
      | Some (PList es) \<Rightarrow> Some es
      | Some _ \<Rightarrow> None)"

definition fetched_state :: "'w env \<Rightarrow> result \<Rightarrow> 'w st \<Rightarrow> 'w st" where
  "fetched_state env res s =
     (case py_get (res_response res) ''total'' PNone of
        Inl e \<Rightarrow> s
      | Inr n \<Rightarrow> log Debug (''Fetched '' @ py_str env n @ '' item(s) from ''
                             @ res_request_url res) s)"

text \<open>A bundle of two patients and one diagnostic artifact, for the concrete runs.\<close>

definition patient_entries :: "pyval list" where
  "patient_entries =
     [PDict [(''resource'', PDict [(''resourceType'', PStr ''Patient''), (''id'', PStr ''1'')])],
      PDict [(''resource'', PDict [(''resourceType'', PStr ''OperationOutcome'')])],
      PDict [(''resource'', PDict [(''resourceType'', PStr ''Patient''), (''id'', PStr ''2'')])]]"

definition patient_bundle_fields :: "(string \<times> pyval) list" where
  "patient_bundle_fields =
     [(''resourceType'', PStr ''Bundle''), (''total'', PInt 2),
      (''entry'', PList patient_entries)]"

definition patient_bundle :: pyval where
  "patient_bundle = PDict patient_bundle_fields"

definition patients :: string where
  "patients = ''http://localhost:8000/Patient''"

section \<open>Vocabulary of the status probe\<close>

text \<open>
  The GET of the probe, what the transport answers to it in a state, and the two verdicts:
  the service is down when the answer is a connection error or a status code of 300 or
  more; a result is an exit when it is SystemExit.
\<close>

definition probe_request :: "string option \<Rightarrow> kwargs \<Rightarrow> request" where
  "probe_request url kw =
     \<lparr>rq_method = ''get'', rq_url = url, rq_auth = kw_auth kw,
      rq_headers = supplied_headers kw, rq_json = kw_json kw, rq_extra = kw_extra kw\<rparr>"

definition probe_answer ::
  "'w env \<Rightarrow> string option \<Rightarrow> kwargs \<Rightarrow> 'w st \<Rightarrow> py_error + response" where
  "probe_answer env url kw s = fst (net env probe_session (world s) (probe_request url kw))"

definition is_down :: "py_error + response \<Rightarrow> bool" where
  "is_down a = (case a of Inl e \<Rightarrow> e = ConnectionError | Inr r \<Rightarrow> 300 \<le> status_code r)"

definition is_exit :: "py_error + 'a \<Rightarrow> bool" where
  "is_exit r = (case r of Inl (SystemExit n) \<Rightarrow> True | _ \<Rightarrow> False)"

text \<open>The endpoint and the keyword arguments the client's probe uses.\<close>

definition client_probe_url :: "client \<Rightarrow> string option" where
  "client_probe_url c = (if truthy_opt (status_endpoint c) then status_endpoint c else base_url c)"

definition client_probe_kwargs :: "client \<Rightarrow> kwargs" where
  "client_probe_kwargs c =
     \<lparr>kw_auth = auth c, kw_headers = Some (fhir_version_headers c), kw_json = None,
      kw_extra = []\<rparr>"

section \<open>The retrying transport\<close>

text \<open>
  Modelled from the spec: the session method of requests and urllib3, which is not code
  of this repository and is otherwise the parameter \<open>net\<close>. The docstring of
  \<^verbatim>\<open>requests_retry_session\<close> and section 4.1 of the specification describe it: one call
  makes a first attempt and then retries a connection error, a read error and a status
  code of the force list; \<^verbatim>\<open>total\<close> is the number of retries of any kind, \<^verbatim>\<open>connect\<close>
  and \<^verbatim>\<open>read\<close> the numbers of retries of their kinds, and every retry takes one from
  the total and one from the budget of its kind; when a budget is exhausted the call
  fails with a transport error and returns no result. The code hands \<^verbatim>\<open>Retry\<close> no
  budget of its own for the status codes of the force list, so the total alone bounds
  their retries. The function also counts the attempts it makes. The delay between the
  attempts is left out.
\<close>

datatype attempt = Refused | ReadFailed | Reply response

fun retrying_from ::
  "('w \<Rightarrow> request \<Rightarrow> attempt \<times> 'w) \<Rightarrow> int list \<Rightarrow> nat \<Rightarrow> nat \<Rightarrow> nat \<Rightarrow> 'w \<Rightarrow> request
     \<Rightarrow> ((py_error + response) \<times> 'w) \<times> nat" where
  "retrying_from wire forcelist 0 connect_left read_left w rq =
     (case wire w rq of
        (Refused, w1) \<Rightarrow> ((Inl ConnectionError, w1), 1)
      | (ReadFailed, w1) \<Rightarrow> ((Inl (RequestException ''read error''), w1), 1)
      | (Reply r, w1) \<Rightarrow>
          if status_code r \<in> set forcelist
          then ((Inl (RequestException ''too many error responses''), w1), 1)
          else ((Inr r, w1), 1))"
| "retrying_from wire forcelist (Suc total_left) connect_left read_left w rq =
     (case wire w rq of
        (Refused, w1) \<Rightarrow>
          (case connect_left of
             0 \<Rightarrow> ((Inl ConnectionError, w1), 1)
           | Suc c \<Rightarrow> apsnd Suc (retrying_from wire forcelist total_left c read_left w1 rq))
      | (ReadFailed, w1) \<Rightarrow>
          (case read_left of
             0 \<Rightarrow> ((Inl (RequestException ''read error''), w1), 1)
           | Suc r \<Rightarrow> apsnd Suc (retrying_from wire forcelist total_left connect_left r w1 rq))
      | (Reply r, w1) \<Rightarrow>
          if status_code r \<in> set forcelist
          then apsnd Suc (retrying_from wire forcelist total_left connect_left read_left w1 rq)
          else ((Inr r, w1), 1))"

text \<open>The call on a session, with the budgets of its \<^verbatim>\<open>Retry\<close> object, and the number of its attempts.\<close>

definition retrying_run ::
  "('w \<Rightarrow> request \<Rightarrow> attempt \<times> 'w) \<Rightarrow> session \<Rightarrow> 'w \<Rightarrow> request
     \<Rightarrow> ((py_error + response) \<times> 'w) \<times> nat" where
  "retrying_run wire ses w rq =
     retrying_from wire (status_forcelist (max_retries ses)) (total (max_retries ses))
       (connect (max_retries ses)) (read (max_retries ses)) w rq"

definition retrying ::
  "('w \<Rightarrow> request \<Rightarrow> attempt \<times> 'w) \<Rightarrow> session \<Rightarrow> 'w \<Rightarrow> request \<Rightarrow> (py_error + response) \<times> 'w" where
  "retrying wire ses w rq = fst (retrying_run wire ses w rq)"

definition attempts ::
  "('w \<Rightarrow> request \<Rightarrow> attempt \<times> 'w) \<Rightarrow> session \<Rightarrow> 'w \<Rightarrow> request \<Rightarrow> nat" where
  "attempts wire ses w rq = snd (retrying_run wire ses w rq)"

text \<open>A wire that gives the scripted outcomes, one per attempt, and the environment over it.\<close>

definition scripted_wire :: "attempt list \<Rightarrow> request \<Rightarrow> attempt \<times> attempt list" where
  "scripted_wire w rq = (case w of [] \<Rightarrow> (Refused, []) | a # rest \<Rightarrow> (a, rest))"

definition retrying_env :: "attempt list env" where
  "retrying_env =
     \<lparr>net = retrying scripted_wire, unquote = (\<lambda>u. u), pformat = (\<lambda>v. ''...''),
      repr = (\<lambda>v. ''?'')\<rparr>"

text \<open>
  What the probes do with the answer of the transport: the result of each probe and the
  record the probe of utils.py logs about the answer.
\<close>

definition probe_verdict :: "bool \<Rightarrow> py_error + response \<Rightarrow> py_error + bool" where
  "probe_verdict ex a =
     (if is_down a then (if ex then Inl (SystemExit 1) else Inr True)
      else (case a of Inl e \<Rightarrow> Inl e | Inr r \<Rightarrow> Inr False))"

definition client_verdict :: "bool \<Rightarrow> py_error + response \<Rightarrow> py_error + unit" where
  "client_verdict ex a =
     (if is_down a then (if ex then Inl (SystemExit 1) else Inr ())
      else (case a of Inl e \<Rightarrow> Inl e | Inr r \<Rightarrow> Inr ()))"

definition probe_diagnostic :: "string option \<Rightarrow> py_error + response \<Rightarrow> (level \<times> string) list" where
  "probe_diagnostic url a =
     (case a of
        Inl e \<Rightarrow>
          if e = ConnectionError
          then [(Error, ''Connection error! Is service at '' @ fmt_opt url @ '' up and running?'')]
          else []
      | Inr r \<Rightarrow>
          if 300 \<le> status_code r
          then [(Warning, ''Service '' @ fmt_opt url
                   @ '' is up but returned non 200 status. Caused by '' @ resp_text r)]
          else [])"

section \<open>Classification of one operation\<close>

lemma call_session_eq:
  "net env ses (world s) rq = (r, w') \<Longrightarrow>
   call_session env ses rq s = (r, s\<lparr>world := w', calls := calls s @ [rq]\<rparr>)"
  by (simp add: call_session_def)

lemma success_status_AcceptedSet:
  "(case map_of success_status n of None \<Rightarrow> {} | Some S \<Rightarrow> S) = AcceptedSet n"
  by (simp add: success_status_def AcceptedSet_def insert_commute)

lemma is_error_issue_PDict:
  "is_error_issue (PDict fs) = (map_of fs ''severity'' = Some (PStr ''error''))"
  by (simp add: is_error_issue_def)

lemma has_severity_PDict:
  "has_severity (PDict fs) = (map_of fs ''severity'' \<noteq> None)"
  by (simp add: has_severity_def)

lemma collect_errors_severity:
  "list_all has_severity es \<Longrightarrow> collect_errors es = Inr (filter is_error_issue es)"
proof (induction es)
  case Nil
  show ?case by simp
next
  case (Cons e es)
  from Cons.prems obtain fs v where e: "e = PDict fs" and v: "map_of fs ''severity'' = Some v"
    by (cases e) (auto simp: has_severity_def)
  from Cons have "collect_errors es = Inr (filter is_error_issue es)" by simp
  with e v show ?case by (simp add: is_error_issue_PDict)
qed

lemma errors_from_response_entries:
  assumes "issue_entries body = Some es" and "list_all has_severity es"
  shows "errors_from_response body = Inr (filter is_error_issue es)"
proof (cases "truthy body")
  case False
  with assms(1) have "es = []" by (simp add: issue_entries_def)
  with False show ?thesis by (simp add: errors_from_response_def)
next
  case True
  with assms(1) obtain d where d: "body = PDict d"
    by (cases body) (simp_all add: issue_entries_def)
  show ?thesis
  proof (cases "map_of d ''issue''")
    case None
    with assms(1) True d have "es = []" by (simp add: issue_entries_def)
    with None True d show ?thesis by (simp add: errors_from_response_def)
  next
    case (Some v)
    with assms(1) True d have "v = PList es"
      by (cases v) (simp_all add: issue_entries_def)
    with Some True d assms(2) show ?thesis
      by (simp add: errors_from_response_def collect_errors_severity)
  qed
qed

lemma filter_empty_list_ex: "(filter P xs = []) = (\<not> list_ex P xs)"
  by (simp add: filter_empty_conv list_ex_iff)

lemma send_request_rejected:
  assumes "net env (session c) (world s) (build_request c m url kw) = (Inr r, w')"
    and "status_code r \<notin> AcceptedSet (upper m)"
  shows "fst (send_request env c m url kw s) = Inr (False, result_of env r)"
  using assms(2)
  by (simp add: send_request_def call_session_eq [OF assms(1)] Let_def
      success_status_AcceptedSet result_of_def)

lemma send_request_scanned:
  assumes "net env (session c) (world s) (build_request c m url kw) = (Inr r, w')"
    and "status_code r \<in> AcceptedSet (upper m)"
    and "errors_from_response (response_content r) = Inr errs"
  shows "fst (send_request env c m url kw s) = Inr (errs = [], result_of env r)"
  using assms(2,3)
  by (simp add: send_request_def call_session_eq [OF assms(1)] Let_def
      success_status_AcceptedSet result_of_def)

lemma send_request_scan_raises:
  assumes "net env (session c) (world s) (build_request c m url kw) = (Inr r, w')"
    and "status_code r \<in> AcceptedSet (upper m)"
    and "errors_from_response (response_content r) = Inl e"
  shows "fst (send_request env c m url kw s) = Inl e"
  using assms(2,3)
  by (simp add: send_request_def call_session_eq [OF assms(1)] Let_def
      success_status_AcceptedSet result_of_def)

lemma AcceptedSet_other:
  "n \<notin> set [''GET'', ''POST'', ''PUT'', ''DELETE''] \<Longrightarrow> AcceptedSet n = {}"
  by (simp add: AcceptedSet_def)

text \<open>
  Claim C1, as amended. Let the transport answer the request with a response \<open>r\<close>. If
  the body has an issue collection \<open>es\<close> (it is empty, or an object whose \<^verbatim>\<open>issue\<close>,
  when present, is a list) and every entry of it carries a severity field, then
  \<^verbatim>\<open>send_request\<close> returns, and it reports success exactly when the status code is in
  the accepted set of the upper-cased method name (GET: 200; POST and PUT: 200, 201;
  DELETE: 200, 204) and no entry has severity \<^verbatim>\<open>error\<close>. Whatever the body is, a
  status code outside the accepted set is reported as a failure, and so is every status
  code under a method name that is none of the four.
\<close>
theorem send_request_classification:
  assumes "net env (session c) (world s) (build_request c m url kw) = (Inr r, w')"
  shows "(issue_entries (response_content r) = Some es \<and> list_all has_severity es \<longrightarrow>
            fst (send_request env c m url kw s) =
              Inr (status_code r \<in> AcceptedSet (upper m) \<and> \<not> list_ex is_error_issue es,
                   result_of env r))
       \<and> (status_code r \<notin> AcceptedSet (upper m) \<longrightarrow>
            fst (send_request env c m url kw s) = Inr (False, result_of env r))
       \<and> (upper m \<notin> set [''GET'', ''POST'', ''PUT'', ''DELETE''] \<longrightarrow>
            fst (send_request env c m url kw s) = Inr (False, result_of env r))"
proof (intro conjI impI)
  assume wf: "issue_entries (response_content r) = Some es \<and> list_all has_severity es"
  show "fst (send_request env c m url kw s) =
          Inr (status_code r \<in> AcceptedSet (upper m) \<and> \<not> list_ex is_error_issue es,
               result_of env r)"
  proof (cases "status_code r \<in> AcceptedSet (upper m)")
    case True
    from wf have "errors_from_response (response_content r) = Inr (filter is_error_issue es)"
      by (simp add: errors_from_response_entries)
    from send_request_scanned [OF assms True this] True show ?thesis
      by (simp add: filter_empty_list_ex)
  next
    case False
    from send_request_rejected [OF assms False] False show ?thesis by simp
  qed
next
  assume "status_code r \<notin> AcceptedSet (upper m)"
  then show "fst (send_request env c m url kw s) = Inr (False, result_of env r)"
    by (rule send_request_rejected [OF assms])
next
  assume "upper m \<notin> set [''GET'', ''POST'', ''PUT'', ''DELETE'']"
  then have "AcceptedSet (upper m) = {}" by (rule AcceptedSet_other)
  then have "status_code r \<notin> AcceptedSet (upper m)" by simp
  then show "fst (send_request env c m url kw s) = Inr (False, result_of env r)"
    by (rule send_request_rejected [OF assms])
qed

lemma scripted_answer:
  "net scripted_env ses (world (init_st (a # rest))) rq = (a, rest)"
  by (simp add: scripted_env_def scripted_def init_st_def)

lemma upper_names:
  "upper ''post'' = ''POST''" "upper ''get'' = ''GET''" "upper ''put'' = ''PUT''"
  "upper ''delete'' = ''DELETE''" "upper ''patch'' = ''PATCH''"
  by (simp_all add: upper_def upper_char_def ascii_lowercase_def ascii_uppercase_def)

text \<open>
  The theorem at four concrete runs: POST answered 201 with an empty object succeeds,
  POST answered 200 with an error issue fails, GET answered 404 fails, and PATCH
  answered 200 fails.
\<close>
theorem send_request_classification_witness:
  "fst (send_request scripted_env demo_client ''post'' patient_url no_kwargs
          (init_st [Inr (json_response 201 (PDict []))]))
     = Inr (True, result_of scripted_env (json_response 201 (PDict [])))
   \<and> fst (send_request scripted_env demo_client ''post'' patient_url no_kwargs
          (init_st [Inr (json_response 200
             (PDict [(''issue'', PList [PDict [(''severity'', PStr ''error'')]])]))]))
     = Inr (False, result_of scripted_env (json_response 200
             (PDict [(''issue'', PList [PDict [(''severity'', PStr ''error'')]])])))
   \<and> fst (send_request scripted_env demo_client ''get'' patient_url no_kwargs
          (init_st [Inr (json_response 404 (PDict []))]))
     = Inr (False, result_of scripted_env (json_response 404 (PDict [])))
   \<and> fst (send_request scripted_env demo_client ''patch'' patient_url no_kwargs
          (init_st [Inr (json_response 200 (PDict []))]))
     = Inr (False, result_of scripted_env (json_response 200 (PDict [])))"
proof (intro conjI)
  let ?a = "json_response 201 (PDict [])"
  have "issue_entries (response_content ?a) = Some [] \<and> list_all has_severity []"
    by (simp add: issue_entries_def response_content_def json_response_def)
  with send_request_classification [where c = demo_client and m = "''post''" and url = patient_url
      and kw = no_kwargs and es = "[]", OF scripted_answer [where a = "Inr ?a" and rest = "[]"]]
  show "fst (send_request scripted_env demo_client ''post'' patient_url no_kwargs
          (init_st [Inr ?a])) = Inr (True, result_of scripted_env ?a)"
    by (simp add: upper_names AcceptedSet_def json_response_def)
next
  let ?es = "[PDict [(''severity'', PStr ''error'')]]"
  let ?b = "json_response 200 (PDict [(''issue'', PList ?es)])"
  have "issue_entries (response_content ?b) = Some ?es \<and> list_all has_severity ?es"
    by (simp add: issue_entries_def response_content_def json_response_def has_severity_def)
  with send_request_classification [where c = demo_client and m = "''post''" and url = patient_url
      and kw = no_kwargs and es = ?es, OF scripted_answer [where a = "Inr ?b" and rest = "[]"]]
  show "fst (send_request scripted_env demo_client ''post'' patient_url no_kwargs
          (init_st [Inr ?b])) = Inr (False, result_of scripted_env ?b)"
    by (simp add: upper_names AcceptedSet_def json_response_def is_error_issue_def)
next
  let ?c = "json_response 404 (PDict [])"
  have "status_code ?c \<notin> AcceptedSet (upper ''get'')"
    by (simp add: upper_names AcceptedSet_def json_response_def)
  with send_request_classification [where c = demo_client and m = "''get''" and url = patient_url
      and kw = no_kwargs and es = "[]", OF scripted_answer [where a = "Inr ?c" and rest = "[]"]]
  show "fst (send_request scripted_env demo_client ''get'' patient_url no_kwargs
          (init_st [Inr ?c])) = Inr (False, result_of scripted_env ?c)"
    by simp
next
  let ?d = "json_response 200 (PDict [])"
  have "upper ''patch'' \<notin> set [''GET'', ''POST'', ''PUT'', ''DELETE'']"
    by (simp add: upper_names)
  with send_request_classification [where c = demo_client and m = "''patch''" and url = patient_url
      and kw = no_kwargs and es = "[]", OF scripted_answer [where a = "Inr ?d" and rest = "[]"]]
  show "fst (send_request scripted_env demo_client ''patch'' patient_url no_kwargs
          (init_st [Inr ?d])) = Inr (False, result_of scripted_env ?d)"
    by simp
qed

text \<open>
  Claim C1 as it is written fails: a GET answered 200 with the body
  \<^verbatim>\<open>{"issue": [{"code": "processing"}]}\<close> has an accepted status code and no issue of
  severity \<^verbatim>\<open>error\<close>, and \<^verbatim>\<open>send_request\<close> raises KeyError instead of reporting
  success.
\<close>
theorem send_request_issue_without_severity_counterexample:
  "status_code (json_response 200
       (PDict [(''issue'', PList [PDict [(''code'', PStr ''processing'')]])]))
     \<in> AcceptedSet (upper ''get'')
   \<and> \<not> list_ex is_error_issue [PDict [(''code'', PStr ''processing'')]]
   \<and> fst (send_request scripted_env demo_client ''get'' patient_url no_kwargs
          (init_st [Inr (json_response 200
             (PDict [(''issue'', PList [PDict [(''code'', PStr ''processing'')]])]))]))
     = Inl KeyError"
proof (intro conjI)
  let ?r = "json_response 200 (PDict [(''issue'', PList [PDict [(''code'', PStr ''processing'')]])])"
  show acc: "status_code ?r \<in> AcceptedSet (upper ''get'')"
    by (simp add: upper_names AcceptedSet_def json_response_def)
  show "\<not> list_ex is_error_issue [PDict [(''code'', PStr ''processing'')]]"
    by (simp add: is_error_issue_def)
  have "errors_from_response (response_content ?r) = Inl KeyError"
    by (simp add: errors_from_response_def response_content_def json_response_def)
  from send_request_scan_raises [OF scripted_answer acc this]
  show "fst (send_request scripted_env demo_client ''get'' patient_url no_kwargs
          (init_st [Inr ?r])) = Inl KeyError" .
qed

text \<open>
  Claim C2. A GET answered 200 with the text \<^verbatim>\<open>OK\<close>, which is not JSON: the body falls
  back to the text, the status code is accepted, and the issue scan calls \<^verbatim>\<open>.get\<close> on
  the str. \<^verbatim>\<open>send_request\<close> raises AttributeError and returns no result.
\<close>
theorem send_request_raw_text_raises:
  "resp_json (text_response 200 ''OK'') = None
   \<and> status_code (text_response 200 ''OK'') \<in> AcceptedSet (upper ''get'')
   \<and> fst (send_request scripted_env demo_client ''get'' patient_url no_kwargs
          (init_st [Inr (text_response 200 ''OK'')])) = Inl AttributeError"
proof (intro conjI)
  let ?r = "text_response 200 ''OK''"
  show "resp_json ?r = None" by (simp add: text_response_def)
  show acc: "status_code ?r \<in> AcceptedSet (upper ''get'')"
    by (simp add: upper_names AcceptedSet_def text_response_def)
  have "errors_from_response (response_content ?r) = Inl AttributeError"
    by (simp add: errors_from_response_def response_content_def text_response_def)
  from send_request_scan_raises [OF scripted_answer acc this]
  show "fst (send_request scripted_env demo_client ''get'' patient_url no_kwargs
          (init_st [Inr ?r])) = Inl AttributeError" .
qed

subsection \<open>Issue entries without a severity\<close>

lemma collect_errors_KeyError:
  "list_all is_object es \<Longrightarrow> \<not> list_all has_severity es \<Longrightarrow> collect_errors es = Inl KeyError"
proof (induction es)
  case Nil
  then show ?case by simp
next
  case (Cons e es)
  from Cons.prems(1) obtain fs where e: "e = PDict fs"
    by (cases e) (simp_all add: is_object_def)
  show ?case
  proof (cases "map_of fs ''severity''")
    case None
    with e show ?thesis by simp
  next
    case (Some v)
    with e Cons.prems have "list_all is_object es" "\<not> list_all has_severity es"
      by (simp_all add: has_severity_PDict)
    then have "collect_errors es = Inl KeyError" by (rule Cons.IH)
    with e Some show ?thesis by simp
  qed
qed

lemma collect_errors_raises:
  "\<not> list_all has_severity es \<Longrightarrow> \<exists>e. collect_errors es = Inl e"
proof (induction es)
  case Nil
  then show ?case by simp
next
  case (Cons x es)
  show ?case
  proof (cases "py_getitem x ''severity''")
    case (Inl e)
    then show ?thesis by simp
  next
    case (Inr v)
    then have "has_severity x"
      by (cases x) (simp_all add: has_severity_def split: option.splits)
    with Cons.prems have "\<not> list_all has_severity es" by simp
    then obtain e where "collect_errors es = Inl e" using Cons.IH by blast
    with Inr show ?thesis by simp
  qed
qed

lemma errors_from_response_issue_list:
  assumes "map_of d ''issue'' = Some (PList es)"
  shows "errors_from_response (PDict d) = collect_errors es"
proof -
  from assms have "d \<noteq> []" by auto
  with assms show ?thesis by (simp add: errors_from_response_def)
qed

text \<open>
  Claim C10. Let the status code be accepted and the parsed body be an object whose
  \<^verbatim>\<open>issue\<close> is a list \<open>es\<close>. If every entry carries a severity field,
  \<^verbatim>\<open>send_request\<close> returns a classified result; if some entry carries none it raises
  and returns nothing, and the exception is KeyError when the entries are objects.
\<close>
theorem send_request_needs_severity:
  assumes "net env (session c) (world s) (build_request c m url kw) = (Inr r, w')"
    and "status_code r \<in> AcceptedSet (upper m)"
    and "resp_json r = Some (PDict d)"
    and "map_of d ''issue'' = Some (PList es)"
  shows "(list_all has_severity es \<longrightarrow>
            fst (send_request env c m url kw s)
              = Inr (\<not> list_ex is_error_issue es, result_of env r))
       \<and> (\<not> list_all has_severity es \<longrightarrow>
            (\<exists>e. fst (send_request env c m url kw s) = Inl e))
       \<and> (list_all is_object es \<and> \<not> list_all has_severity es \<longrightarrow>
            fst (send_request env c m url kw s) = Inl KeyError)"
proof -
  have body: "response_content r = PDict d"
    using assms(3) by (simp add: response_content_def)
  have scan: "errors_from_response (response_content r) = collect_errors es"
    using body errors_from_response_issue_list [OF assms(4)] by simp
  show ?thesis
  proof (intro conjI impI)
    assume "list_all has_severity es"
    then have "errors_from_response (response_content r) = Inr (filter is_error_issue es)"
      using scan by (simp add: collect_errors_severity)
    from send_request_scanned [OF assms(1,2) this]
    show "fst (send_request env c m url kw s)
            = Inr (\<not> list_ex is_error_issue es, result_of env r)"
      by (simp add: filter_empty_list_ex)
  next
    assume "\<not> list_all has_severity es"
    then obtain e where "collect_errors es = Inl e"
      using collect_errors_raises by blast
    with scan have "errors_from_response (response_content r) = Inl e" by simp
    from send_request_scan_raises [OF assms(1,2) this]
    show "\<exists>e. fst (send_request env c m url kw s) = Inl e" by blast
  next
    assume "list_all is_object es \<and> \<not> list_all has_severity es"
    then have "collect_errors es = Inl KeyError"
      by (simp add: collect_errors_KeyError)
    with scan have "errors_from_response (response_content r) = Inl KeyError" by simp
    from send_request_scan_raises [OF assms(1,2) this]
    show "fst (send_request env c m url kw s) = Inl KeyError" .
  qed
qed

text \<open>
  The theorem at two runs of PUT answered 200: an issue list whose second entry has no
  severity raises KeyError; a list with one warning is a success.
\<close>
theorem send_request_needs_severity_witness:
  "fst (send_request scripted_env demo_client ''put'' patient_url no_kwargs
          (init_st [Inr (json_response 200
             (PDict [(''issue'', PList [PDict [(''severity'', PStr ''warning'')],
                                        PDict [(''code'', PStr ''invalid'')]])]))]))
     = Inl KeyError
   \<and> fst (send_request scripted_env demo_client ''put'' patient_url no_kwargs
          (init_st [Inr (json_response 200
             (PDict [(''issue'', PList [PDict [(''severity'', PStr ''warning'')]])]))]))
     = Inr (True, result_of scripted_env (json_response 200
             (PDict [(''issue'', PList [PDict [(''severity'', PStr ''warning'')]])])))"
proof (intro conjI)
  let ?es = "[PDict [(''severity'', PStr ''warning'')], PDict [(''code'', PStr ''invalid'')]]"
  let ?d = "[(''issue'', PList ?es)]"
  let ?r = "json_response 200 (PDict ?d)"
  have acc: "status_code ?r \<in> AcceptedSet (upper ''put'')"
    by (simp add: upper_names AcceptedSet_def json_response_def)
  have js: "resp_json ?r = Some (PDict ?d)" by (simp add: json_response_def)
  have iss: "map_of ?d ''issue'' = Some (PList ?es)" by simp
  have "list_all is_object ?es \<and> \<not> list_all has_severity ?es"
    by (simp add: is_object_def has_severity_def)
  with send_request_needs_severity [OF scripted_answer acc js iss]
  show "fst (send_request scripted_env demo_client ''put'' patient_url no_kwargs
          (init_st [Inr ?r])) = Inl KeyError"
    by blast
next
  let ?es = "[PDict [(''severity'', PStr ''warning'')]]"
  let ?d = "[(''issue'', PList ?es)]"
  let ?r = "json_response 200 (PDict ?d)"
  have acc: "status_code ?r \<in> AcceptedSet (upper ''put'')"
    by (simp add: upper_names AcceptedSet_def json_response_def)
  have js: "resp_json ?r = Some (PDict ?d)" by (simp add: json_response_def)
  have iss: "map_of ?d ''issue'' = Some (PList ?es)" by simp
  have "list_all has_severity ?es" by (simp add: has_severity_def)
  with send_request_needs_severity [OF scripted_answer acc js iss]
  show "fst (send_request scripted_env demo_client ''put'' patient_url no_kwargs
          (init_st [Inr ?r])) = Inr (True, result_of scripted_env ?r)"
    by (simp add: is_error_issue_def)
qed

section \<open>The request that is sent\<close>

lemma send_request_calls:
  "calls (snd (send_request env c m url kw s)) = calls s @ [build_request c m url kw]"
  by (simp add: send_request_def call_session_def log_def Let_def
      split: prod.splits sum.splits)

lemma build_request_auth:
  "rq_auth (build_request c m url kw) = (case auth c of None \<Rightarrow> kw_auth kw | Some a \<Rightarrow> Some a)"
  by (simp add: build_request_def Let_def split: option.splits)

text \<open>
  Claim C5. A client configured with the credential \<^verbatim>\<open>('svc', 'secret')\<close> is asked to
  send a GET with the per-call credential \<^verbatim>\<open>('alice', 'pw')\<close>: the one request made on
  the session carries the client's credential, not the caller's.
\<close>

theorem send_request_client_auth_overrides:
  "map rq_auth (calls (snd (send_request scripted_env auth_client ''get'' patient_url
        (no_kwargs\<lparr>kw_auth := Some (''alice'', ''pw'')\<rparr>)
        (init_st [Inr (json_response 200 (PDict []))]))))
     = [Some (''svc'', ''secret'')]"
  by (simp add: send_request_calls build_request_auth init_st_def auth_client_def
      FhirApiClient_def)

lemma update_fresh:
  "k \<notin> set (map fst al) \<Longrightarrow> AList.update k v al = al @ [(k, v)]"
  by (induction al) auto

lemma build_request_headers:
  "rq_headers (build_request c m url kw) =
     (if ''Content-Type'' \<in> set (map fst (supplied_headers kw)) then supplied_headers kw
      else dict_update (supplied_headers kw) (fhir_version_headers c))"
  by (simp add: build_request_def supplied_headers_def Let_def split: option.splits)

text \<open>
  Claim C8, as amended. The request that \<^verbatim>\<open>send_request\<close> makes on the session: when
  the caller's headers have no \<^verbatim>\<open>Content-Type\<close> key and the client's version string
  \<open>v\<close> is set and not empty, the header
  \<^verbatim>\<open>application/fhir+json; fhirVersion=<major>.0\<close> is appended, \<^verbatim>\<open><major>\<close> being the
  text of \<open>v\<close> before its first dot; when the version is None or empty the caller's
  headers are sent as they are; and headers that have a \<^verbatim>\<open>Content-Type\<close> key are sent
  as they are.
\<close>

theorem send_request_content_type:
  "(''Content-Type'' \<notin> set (map fst (supplied_headers kw)) \<and> fhir_version c = Some v \<and> v \<noteq> [] \<longrightarrow>
      rq_headers (last (calls (snd (send_request env c m url kw s))))
        = supplied_headers kw @ [version_header v])
   \<and> (''Content-Type'' \<notin> set (map fst (supplied_headers kw)) \<and> \<not> truthy_opt (fhir_version c) \<longrightarrow>
      rq_headers (last (calls (snd (send_request env c m url kw s)))) = supplied_headers kw)
   \<and> (''Content-Type'' \<in> set (map fst (supplied_headers kw)) \<longrightarrow>
      rq_headers (last (calls (snd (send_request env c m url kw s)))) = supplied_headers kw)"
  by (simp add: send_request_calls build_request_headers fhir_version_headers_def
      dict_update_def truthy_opt_def update_fresh version_header_def major_version_def)

text \<open>
  The theorem at the default version 4.0.0: an Accept header gains the version header,
  and a caller's \<^verbatim>\<open>Content-Type\<close> stays.
\<close>

theorem send_request_content_type_witness:
  "rq_headers (last (calls (snd (send_request scripted_env demo_client ''get'' patient_url
       (no_kwargs\<lparr>kw_headers := Some [(''Accept'', ''application/json'')]\<rparr>)
       (init_st [Inr (json_response 200 (PDict []))])))))
     = [(''Accept'', ''application/json''),
        (''Content-Type'', ''application/fhir+json; fhirVersion=4.0'')]
   \<and> rq_headers (last (calls (snd (send_request scripted_env demo_client ''get'' patient_url
       (no_kwargs\<lparr>kw_headers := Some [(''Content-Type'', ''application/json'')]\<rparr>)
       (init_st [Inr (json_response 200 (PDict []))])))))
     = [(''Content-Type'', ''application/json'')]"
proof (intro conjI)
  let ?kw = "no_kwargs\<lparr>kw_headers := Some [(''Accept'', ''application/json'')]\<rparr>"
  have "''Content-Type'' \<notin> set (map fst (supplied_headers ?kw))
        \<and> fhir_version demo_client = Some ''4.0.0'' \<and> ''4.0.0'' \<noteq> []"
    by (simp add: supplied_headers_def no_kwargs_def demo_client_def FhirApiClient_def
        FHIR_VERSION_def)
  with send_request_content_type [where kw = ?kw and c = demo_client and v = "''4.0.0''"
      and env = scripted_env and m = "''get''" and url = patient_url
      and s = "init_st [Inr (json_response 200 (PDict []))]"]
  show "rq_headers (last (calls (snd (send_request scripted_env demo_client ''get'' patient_url
       ?kw (init_st [Inr (json_response 200 (PDict []))])))))
     = [(''Accept'', ''application/json''),
        (''Content-Type'', ''application/fhir+json; fhirVersion=4.0'')]"
    by (simp add: supplied_headers_def no_kwargs_def version_header_def major_version_def)
next
  let ?kw = "no_kwargs\<lparr>kw_headers := Some [(''Content-Type'', ''application/json'')]\<rparr>"
  have "''Content-Type'' \<in> set (map fst (supplied_headers ?kw))"
    by (simp add: supplied_headers_def no_kwargs_def)
  with send_request_content_type [where kw = ?kw and c = demo_client and v = "''4.0.0''"
      and env = scripted_env and m = "''get''" and url = patient_url
      and s = "init_st [Inr (json_response 200 (PDict []))]"]
  show "rq_headers (last (calls (snd (send_request scripted_env demo_client ''get'' patient_url
       ?kw (init_st [Inr (json_response 200 (PDict []))])))))
     = [(''Content-Type'', ''application/json'')]"
    by (simp add: supplied_headers_def no_kwargs_def)
qed

text \<open>
  Claim C8 as it is written fails for a client built with \<^verbatim>\<open>fhir_version=None\<close>: the
  caller gives no headers and the request is sent with none.
\<close>

theorem send_request_no_version_counterexample:
  "''Content-Type'' \<notin> set (map fst (supplied_headers no_kwargs))
   \<and> rq_headers (last (calls (snd (send_request scripted_env unversioned_client ''get''
        patient_url no_kwargs (init_st [Inr (json_response 200 (PDict []))]))))) = []"
  by (simp add: send_request_calls build_request_headers supplied_headers_def no_kwargs_def
      unversioned_client_def FhirApiClient_def fhir_version_headers_def truthy_opt_def
      dict_update_def)

section \<open>Bulk write\<close>

lemma routed_Nil [simp]: "routed b [] outs = []" "routed b rds [] = []"
  by (simp_all add: routed_def)

lemma routed_Cons:
  "routed b (rd # rds) (out # outs) =
     (if fst out = b then [(rd_filepath rd, snd out)] else []) @ routed b rds outs"
  by (simp add: routed_def)

lemma routed_keys_subset: "fst ` set (routed b rds outs) \<subseteq> rd_filepath ` set rds"
  by (auto simp: routed_def dest: set_zip_leftD)

lemma update_fresh':
  "k \<notin> fst ` set al \<Longrightarrow> AList.update k v al = al @ [(k, v)]"
  by (induction al) auto

lemma post_or_put_loop_step:
  "post_or_put env c (item_endpoint rd endpoint) rd method s = (Inr (b, res), s1) \<Longrightarrow>
   post_or_put_loop env c endpoint method (rd # rds) ok0 rs0 s =
     post_or_put_loop env c endpoint method rds (b \<and> ok0)
       (if b then rs0\<lparr>res_success := AList.update (rd_filepath rd) res (res_success rs0)\<rparr>
        else rs0\<lparr>res_errors := AList.update (rd_filepath rd) res (res_errors rs0)\<rparr>) s1"
  by (simp add: item_endpoint_def Let_def)

lemma post_or_put_loop_raise:
  "post_or_put env c (item_endpoint rd endpoint) rd method s = (Inl e, s1) \<Longrightarrow>
   post_or_put_loop env c endpoint method (rd # rds) ok0 rs0 s = (Inl e, s1)"
  by (simp add: item_endpoint_def Let_def)

lemma post_or_put_loop_routes:
  assumes "post_or_put_loop env c endpoint method rds ok0 rs0 s = (Inr (ok, rs), s')"
    and "distinct (map rd_filepath rds)"
    and "rd_filepath ` set rds \<inter> (fst ` set (res_success rs0) \<union> fst ` set (res_errors rs0)) = {}"
  shows "\<exists>outs. post_or_put_each env c endpoint method rds s = (Inr outs, s')
           \<and> length outs = length rds
           \<and> res_success rs = res_success rs0 @ routed True rds outs
           \<and> res_errors rs = res_errors rs0 @ routed False rds outs
           \<and> ok = (list_all fst outs \<and> ok0)"
  using assms
proof (induction rds arbitrary: ok0 rs0 s)
  case Nil
  then show ?case by simp
next
  case (Cons rd rds)
  let ?k = "rd_filepath rd"
  show ?case
  proof (cases "post_or_put env c (item_endpoint rd endpoint) rd method s")
    case (Pair r s1)
    show ?thesis
    proof (cases r)
      case (Inl e)
      with Pair have "post_or_put env c (item_endpoint rd endpoint) rd method s = (Inl e, s1)"
        by simp
      from post_or_put_loop_raise [OF this] Cons.prems(1) show ?thesis
        by (simp del: post_or_put_loop.simps)
    next
      case (Inr out)
      obtain b res where out: "out = (b, res)" by (cases out)
      let ?rs1 = "if b then rs0\<lparr>res_success := AList.update ?k res (res_success rs0)\<rparr>
                  else rs0\<lparr>res_errors := AList.update ?k res (res_errors rs0)\<rparr>"
      have pp: "post_or_put env c (item_endpoint rd endpoint) rd method s = (Inr (b, res), s1)"
        using Pair Inr out by simp
      have loop: "post_or_put_loop env c endpoint method rds (b \<and> ok0) ?rs1 s1 = (Inr (ok, rs), s')"
        using Cons.prems(1) post_or_put_loop_step [OF pp] by (simp del: post_or_put_loop.simps)
      have fresh: "?k \<notin> fst ` set (res_success rs0)" "?k \<notin> fst ` set (res_errors rs0)"
        using Cons.prems(3) by auto
      have succ1: "res_success ?rs1 = res_success rs0 @ (if b then [(?k, res)] else [])"
        and err1: "res_errors ?rs1 = res_errors rs0 @ (if b then [] else [(?k, res)])"
        using fresh by (simp_all add: update_fresh')
      have d: "distinct (map rd_filepath rds)" using Cons.prems(2) by simp
      have disj: "rd_filepath ` set rds \<inter> (fst ` set (res_success ?rs1) \<union> fst ` set (res_errors ?rs1)) = {}"
      proof -
        have "?k \<notin> rd_filepath ` set rds" using Cons.prems(2) by auto
        moreover have "rd_filepath ` set rds \<inter> (fst ` set (res_success rs0) \<union> fst ` set (res_errors rs0)) = {}"
          using Cons.prems(3) by auto
        ultimately show ?thesis unfolding succ1 err1 by (cases b) auto
      qed
      from Cons.IH [OF loop d disj] obtain outs where
        each: "post_or_put_each env c endpoint method rds s1 = (Inr outs, s')"
        and len: "length outs = length rds"
        and s: "res_success rs = res_success ?rs1 @ routed True rds outs"
        and e: "res_errors rs = res_errors ?rs1 @ routed False rds outs"
        and ok: "ok = (list_all fst outs \<and> (b \<and> ok0))"
        by blast
      have "post_or_put_each env c endpoint method (rd # rds) s = (Inr ((b, res) # outs), s')"
        using pp each by simp
      moreover have "length ((b, res) # outs) = length (rd # rds)" using len by simp
      moreover have "res_success rs = res_success rs0 @ routed True (rd # rds) ((b, res) # outs)"
        using s succ1 by (simp add: routed_Cons)
      moreover have "res_errors rs = res_errors rs0 @ routed False (rd # rds) ((b, res) # outs)"
        using e err1 by (simp add: routed_Cons)
      moreover have "ok = (list_all fst ((b, res) # outs) \<and> ok0)"
        using ok by auto
      ultimately show ?thesis by blast
    qed
  qed
qed

lemma routed_lengths:
  "length outs = length rds \<Longrightarrow>
   length (routed True rds outs) + length (routed False rds outs) = length rds"
  by (induction outs rds rule: list_induct2) (auto simp: routed_Cons)

lemma routed_False_length:
  "length outs = length rds \<Longrightarrow> length (routed False rds outs) = failed_count outs"
  by (induction outs rds rule: list_induct2) (auto simp: routed_Cons failed_count_def)

lemma list_all_failed_count: "list_all fst outs = (failed_count outs = 0)"
  by (induction outs) (auto simp: failed_count_def)

lemma routed_exactly_one:
  "length outs = length rds \<Longrightarrow> distinct (map rd_filepath rds) \<Longrightarrow>
   list_all (\<lambda>rd. (rd_filepath rd \<in> fst ` set (routed True rds outs))
                  \<noteq> (rd_filepath rd \<in> fst ` set (routed False rds outs))) rds"
proof (induction outs rds rule: list_induct2)
  case Nil
  then show ?case by simp
next
  case (Cons out outs rd rds)
  have notin: "rd_filepath rd \<notin> fst ` set (routed b rds outs)" for b
    using Cons.prems routed_keys_subset [of b rds outs] by auto
  have rest: "list_all (\<lambda>x. (rd_filepath x \<in> fst ` set (routed True rds outs))
                  \<noteq> (rd_filepath x \<in> fst ` set (routed False rds outs))) rds"
    using Cons by simp
  have other: "x \<in> set rds \<Longrightarrow> rd_filepath x \<noteq> rd_filepath rd" for x
    using Cons.prems by (force simp: image_iff)
  show ?case
    using notin rest other by (cases "fst out") (auto simp: routed_Cons list_all_iff)
qed

text \<open>
  Claim C3, as amended. Let the file paths of the items be pairwise distinct and let
  \<^verbatim>\<open>post_or_put_all\<close> return. Then the call ran the executor once per item, in order,
  with outcomes \<open>outs\<close>; the successes mapping holds exactly the items that succeeded
  and the failures mapping exactly those that failed; every item's file path is a key of
  exactly one of the two; the two sizes add up to the number of items; the failures
  mapping has \<open>k\<close> entries, \<open>k\<close> the number of failed items; and the overall success
  is true exactly when \<open>k = 0\<close>.
\<close>

theorem post_or_put_all_batch_invariant:
  assumes "distinct (map rd_filepath rds)"
    and "post_or_put_all env c rds endpoint method s = (Inr (ok, rs), s')"
  shows "\<exists>outs. post_or_put_each env c endpoint method rds s = (Inr outs, s')
           \<and> length outs = length rds
           \<and> res_success rs = routed True rds outs
           \<and> res_errors rs = routed False rds outs
           \<and> list_all (\<lambda>rd. (rd_filepath rd \<in> fst ` set (res_success rs))
                             \<noteq> (rd_filepath rd \<in> fst ` set (res_errors rs))) rds
           \<and> length (res_success rs) + length (res_errors rs) = length rds
           \<and> length (res_errors rs) = failed_count outs
           \<and> ok = (failed_count outs = 0)"
proof -
  from assms(2) have loop: "post_or_put_loop env c endpoint method rds True
      \<lparr>res_success = [], res_errors = []\<rparr> s = (Inr (ok, rs), s')"
    by (simp add: post_or_put_all_def)
  from post_or_put_loop_routes [OF loop assms(1)] obtain outs where
    each: "post_or_put_each env c endpoint method rds s = (Inr outs, s')"
    and len: "length outs = length rds"
    and s: "res_success rs = routed True rds outs"
    and e: "res_errors rs = routed False rds outs"
    and ok: "ok = list_all fst outs"
    by auto
  from each len s e ok routed_exactly_one [OF len assms(1)] routed_lengths [OF len]
    routed_False_length [OF len] list_all_failed_count [of outs]
  show ?thesis by auto
qed

lemma post_or_put_loop_append:
  "post_or_put_loop env c endpoint method (pre @ post) ok0 rs0 s =
     (case post_or_put_loop env c endpoint method pre ok0 rs0 s of
        (Inl e, s1) \<Rightarrow> (Inl e, s1)
      | (Inr (ok1, rs1), s1) \<Rightarrow> post_or_put_loop env c endpoint method post ok1 rs1 s1)"
  by (induction pre arbitrary: ok0 rs0 s) (auto simp: Let_def split: prod.splits sum.splits)

lemma calls_log: "calls (log lv msg s) = calls s"
  by (simp add: log_def)

lemma post_or_put_calls:
  "calls (snd (post_or_put env c ep rd method s))
     = calls s @ [build_request c method ep (no_kwargs\<lparr>kw_json := Some (rd_content rd)\<rparr>)]"
proof -
  let ?s0 = "log Info (upper method @ ''ing FHIR '' @ rd_resource_type rd @ '' from ''
               @ rd_filename rd) s"
  let ?kw = "no_kwargs\<lparr>kw_json := Some (rd_content rd)\<rparr>"
  have sr: "calls (snd (send_request env c method ep ?kw ?s0))
              = calls s @ [build_request c method ep ?kw]"
    by (simp add: send_request_calls calls_log)
  obtain r s1 where run: "send_request env c method ep ?kw ?s0 = (r, s1)"
    by (cases "send_request env c method ep ?kw ?s0")
  with sr have "calls s1 = calls s @ [build_request c method ep ?kw]" by simp
  with run show ?thesis
    by (cases r) (auto simp: post_or_put_def Let_def calls_log)
qed

lemma post_or_put_loop_calls:
  "post_or_put_loop env c endpoint method rds ok0 rs0 s = (Inr out, s') \<Longrightarrow>
   length (calls s') = length (calls s) + length rds"
proof (induction rds arbitrary: ok0 rs0 s)
  case Nil
  then show ?case by simp
next
  case (Cons rd rds)
  obtain r s1 where pp: "post_or_put env c (item_endpoint rd endpoint) rd method s = (r, s1)"
    by (cases "post_or_put env c (item_endpoint rd endpoint) rd method s")
  from post_or_put_calls [of env c "item_endpoint rd endpoint" rd "method" s] pp
  have one: "length (calls s1) = Suc (length (calls s))" by simp
  show ?case
  proof (cases r)
    case (Inl e)
    with pp have "post_or_put env c (item_endpoint rd endpoint) rd method s = (Inl e, s1)"
      by simp
    from post_or_put_loop_raise [OF this] Cons.prems show ?thesis
      by (simp del: post_or_put_loop.simps)
  next
    case (Inr o1)
    obtain b res where "o1 = (b, res)" by (cases o1)
    with Inr pp have "post_or_put env c (item_endpoint rd endpoint) rd method s = (Inr (b, res), s1)"
      by simp
    from post_or_put_loop_step [OF this] Cons.prems
    obtain ok1 rs1 where "post_or_put_loop env c endpoint method rds ok1 rs1 s1 = (Inr out, s')"
      by (simp del: post_or_put_loop.simps)
    from Cons.IH [OF this] one show ?thesis by simp
  qed
qed

text \<open>
  Claim C4, as amended. \<^verbatim>\<open>post_or_put_all\<close> catches nothing. When the items \<open>pre\<close>
  have been processed and the next item raises a hard error \<open>e\<close>, the whole call raises
  \<open>e\<close> in the state the failed item left: no result is returned, and the calls made on
  the session are those of \<open>pre\<close> and of the failed item, none of the items after it. An
  item whose operation returns a classified failure is recorded under its file path in
  the failures mapping and the loop goes on with the remaining items.
\<close>

theorem post_or_put_all_hard_error_propagates:
  "(post_or_put_all env c pre endpoint m s = (Inr (ok1, rs1), s1)
      \<and> post_or_put env c (item_endpoint rd endpoint) rd m s1 = (Inl e, s2)
    \<longrightarrow> post_or_put_all env c (pre @ rd # post) endpoint m s = (Inl e, s2)
        \<and> length (calls s2) = length (calls s) + length pre + 1)
   \<and> (post_or_put env c (item_endpoint rd endpoint) rd m s = (Inr (False, res), s1)
    \<longrightarrow> post_or_put_loop env c endpoint m (rd # post) ok0 rs0 s
          = post_or_put_loop env c endpoint m post False
              (rs0\<lparr>res_errors := AList.update (rd_filepath rd) res (res_errors rs0)\<rparr>) s1)"
proof (intro conjI impI)
  assume a: "post_or_put_all env c pre endpoint m s = (Inr (ok1, rs1), s1)
      \<and> post_or_put env c (item_endpoint rd endpoint) rd m s1 = (Inl e, s2)"
  then have pre: "post_or_put_loop env c endpoint m pre True
      \<lparr>res_success = [], res_errors = []\<rparr> s = (Inr (ok1, rs1), s1)"
    and rd: "post_or_put env c (item_endpoint rd endpoint) rd m s1 = (Inl e, s2)"
    by (simp_all add: post_or_put_all_def)
  from pre post_or_put_loop_raise [OF rd]
  show "post_or_put_all env c (pre @ rd # post) endpoint m s = (Inl e, s2)"
    by (simp add: post_or_put_all_def post_or_put_loop_append del: post_or_put_loop.simps)
  from post_or_put_loop_calls [OF pre]
    post_or_put_calls [of env c "item_endpoint rd endpoint" rd m s1] rd
  show "length (calls s2) = length (calls s) + length pre + 1" by simp
next
  assume "post_or_put env c (item_endpoint rd endpoint) rd m s = (Inr (False, res), s1)"
  from post_or_put_loop_step [OF this]
  show "post_or_put_loop env c endpoint m (rd # post) ok0 rs0 s
          = post_or_put_loop env c endpoint m post False
              (rs0\<lparr>res_errors := AList.update (rd_filepath rd) res (res_errors rs0)\<rparr>) s1"
    by simp
qed

lemmas request_defs = send_request_def call_session_def build_request_def response_content_def
  errors_from_response_def success_status_def log_def Let_def dict_update_def
  fhir_version_headers_def truthy_opt_def upper_def lower_def upper_char_def lower_char_def
  ascii_lowercase_def ascii_uppercase_def no_kwargs_def fmt_opt_def
  scripted_env_def scripted_def init_st_def json_response_def text_response_def
  demo_client_def FhirApiClient_def FHIR_VERSION_def patient_url_def default_session_def

lemmas bulk_defs = post_or_put_all_def post_or_put_def check_mark_def cross_mark_def
  patient_item_def created_def bad_request_def items3_def

text \<open>
  The theorem at three items of which the second is answered 400: two successes, one
  failure, overall failure.
\<close>

theorem post_or_put_all_batch_invariant_witness:
  "distinct (map rd_filepath items3)
   \<and> fst (post_or_put_all scripted_env demo_client items3 patient_url ''post''
            (init_st [Inr created, Inr bad_request, Inr created]))
       = Inr (False,
              \<lparr>res_success = [(''/data/a.json'', result_of scripted_env created),
                               (''/data/c.json'', result_of scripted_env created)],
               res_errors = [(''/data/b.json'', result_of scripted_env bad_request)]\<rparr>)
   \<and> (\<exists>outs. fst (post_or_put_each scripted_env demo_client patient_url ''post'' items3
                    (init_st [Inr created, Inr bad_request, Inr created])) = Inr outs
             \<and> length outs = 3 \<and> failed_count outs = 1)"
proof -
  let ?s = "init_st [Inr created, Inr bad_request, Inr created]"
  let ?run = "post_or_put_all scripted_env demo_client items3 patient_url ''post'' ?s"
  let ?rs = "\<lparr>res_success = [(''/data/a.json'', result_of scripted_env created),
                               (''/data/c.json'', result_of scripted_env created)],
               res_errors = [(''/data/b.json'', result_of scripted_env bad_request)]\<rparr>"
  have d: "distinct (map rd_filepath items3)"
    by (simp add: items3_def patient_item_def)
  have v: "fst ?run = Inr (False, ?rs)"
    by (simp add: request_defs bulk_defs result_of_def)
  then have r: "?run = (Inr (False, ?rs), snd ?run)"
    by (simp add: prod_eq_iff)
  from post_or_put_all_batch_invariant [OF d r] obtain outs where
    "post_or_put_each scripted_env demo_client patient_url ''post'' items3 ?s
       = (Inr outs, snd ?run)"
    and "length outs = length items3"
    and "length (res_errors ?rs) = failed_count outs"
    by blast
  then have "fst (post_or_put_each scripted_env demo_client patient_url ''post'' items3 ?s)
               = Inr outs \<and> length outs = 3 \<and> failed_count outs = 1"
    by (simp add: items3_def)
  with d v show ?thesis by blast
qed

text \<open>
  Claim C3 as it is written fails when two items share a file path: both are answered
  201, the second result replaces the first under the one key, and the two mappings hold
  one entry for two items.
\<close>

theorem post_or_put_all_duplicate_filepath_counterexample:
  "fst (post_or_put_all scripted_env demo_client
          [patient_item ''a.json'', patient_item ''a.json''] patient_url ''post''
          (init_st [Inr created, Inr created]))
     = Inr (True, \<lparr>res_success = [(''/data/a.json'', result_of scripted_env created)],
                   res_errors = []\<rparr>)
   \<and> length [(''/data/a.json'', result_of scripted_env created)] + length ([] :: (string \<times> result) list)
       \<noteq> length [patient_item ''a.json'', patient_item ''a.json'']"
  by (simp add: request_defs bulk_defs result_of_def)

text \<open>
  The theorem at three items whose second request meets a connection error: the call
  raises it after two requests; and at a batch whose first item is answered 400: the loop
  goes on with the item after it.
\<close>

theorem post_or_put_all_hard_error_propagates_witness:
  "fst (post_or_put_all scripted_env demo_client items3 patient_url ''post''
          (init_st [Inr created, Inl ConnectionError, Inr created])) = Inl ConnectionError
   \<and> length (calls (snd (post_or_put_all scripted_env demo_client items3 patient_url ''post''
          (init_st [Inr created, Inl ConnectionError, Inr created])))) = 2
   \<and> post_or_put_loop scripted_env demo_client patient_url ''post''
        [patient_item ''b.json'', patient_item ''c.json''] True
        \<lparr>res_success = [], res_errors = []\<rparr> (init_st [Inr bad_request, Inr created])
     = post_or_put_loop scripted_env demo_client patient_url ''post''
        [patient_item ''c.json''] False
        \<lparr>res_success = [], res_errors = [(''/data/b.json'', result_of scripted_env bad_request)]\<rparr>
        (snd (post_or_put scripted_env demo_client patient_url (patient_item ''b.json'') ''post''
               (init_st [Inr bad_request, Inr created])))"
proof -
  let ?s = "init_st [Inr created, Inl ConnectionError, Inr created]"
  let ?a = "patient_item ''a.json''" and ?b = "patient_item ''b.json''"
  let ?c = "patient_item ''c.json''"
  let ?pre = "post_or_put_all scripted_env demo_client [?a] patient_url ''post'' ?s"
  let ?rs1 = "\<lparr>res_success = [(''/data/a.json'', result_of scripted_env created)],
               res_errors = []\<rparr>"
  let ?mid = "post_or_put scripted_env demo_client (item_endpoint ?b patient_url) ?b ''post''
                (snd ?pre)"
  have "fst ?pre = Inr (True, ?rs1)"
    by (simp add: request_defs bulk_defs result_of_def)
  then have pre: "?pre = (Inr (True, ?rs1), snd ?pre)"
    by (simp add: prod_eq_iff)
  have "fst ?mid = Inl ConnectionError"
    by (simp add: request_defs bulk_defs item_endpoint_def)
  then have mid: "?mid = (Inl ConnectionError, snd ?mid)"
    by (simp add: prod_eq_iff)
  let ?t = "init_st [Inr bad_request, Inr created]"
  let ?one = "post_or_put scripted_env demo_client (item_endpoint ?b patient_url) ?b ''post'' ?t"
  have "fst ?one = Inr (False, result_of scripted_env bad_request)"
    by (simp add: request_defs bulk_defs item_endpoint_def result_of_def)
  then have one: "?one = (Inr (False, result_of scripted_env bad_request), snd ?one)"
    by (simp add: prod_eq_iff)
  have ep: "item_endpoint ?b patient_url = patient_url"
    by (simp add: item_endpoint_def patient_item_def)
  from post_or_put_all_hard_error_propagates [where env = scripted_env and c = demo_client
      and pre = "[?a]" and rd = ?b and post = "[?c]" and endpoint = patient_url
      and m = "''post''" and s = ?s and ?ok1.0 = True and ?rs1.0 = ?rs1 and ?s1.0 = "snd ?pre"
      and e = ConnectionError and ?s2.0 = "snd ?mid"] pre mid
  have first: "post_or_put_all scripted_env demo_client ([?a] @ ?b # [?c]) patient_url ''post'' ?s
             = (Inl ConnectionError, snd ?mid)
        \<and> length (calls (snd ?mid)) = length (calls ?s) + length [?a] + 1"
    by blast
  from post_or_put_all_hard_error_propagates [where env = scripted_env and c = demo_client
      and rd = ?b and post = "[?c]" and endpoint = patient_url
      and m = "''post''" and s = ?t and ?s1.0 = "snd ?one"
      and res = "result_of scripted_env bad_request" and ?ok0.0 = True
      and ?rs0.0 = "\<lparr>res_success = [], res_errors = []\<rparr>"] one
  have second: "post_or_put_loop scripted_env demo_client patient_url ''post'' (?b # [?c]) True
        \<lparr>res_success = [], res_errors = []\<rparr> ?t
     = post_or_put_loop scripted_env demo_client patient_url ''post'' [?c] False
        (\<lparr>res_success = [], res_errors = []\<rparr>\<lparr>res_errors :=
            AList.update (rd_filepath ?b) (result_of scripted_env bad_request)
              (res_errors \<lparr>res_success = [], res_errors = []\<rparr>)\<rparr>)
        (snd ?one)"
    by blast
  from first have "fst (post_or_put_all scripted_env demo_client items3 patient_url ''post'' ?s)
      = Inl ConnectionError
    \<and> length (calls (snd (post_or_put_all scripted_env demo_client items3 patient_url ''post'' ?s))) = 2"
    by (simp add: items3_def init_st_def)
  moreover from second ep have "post_or_put_loop scripted_env demo_client patient_url ''post''
        [?b, ?c] True \<lparr>res_success = [], res_errors = []\<rparr> ?t
     = post_or_put_loop scripted_env demo_client patient_url ''post'' [?c] False
        \<lparr>res_success = [], res_errors = [(''/data/b.json'', result_of scripted_env bad_request)]\<rparr>
        (snd (post_or_put scripted_env demo_client patient_url ?b ''post'' ?t))"
    by (simp add: patient_item_def del: post_or_put_loop.simps)
  ultimately show ?thesis by blast
qed

text \<open>
  Claim C4 as it is written fails: the first of two items meets a connection error, the
  call raises it, and the only request made is the first item's.
\<close>

theorem post_or_put_all_transport_fault_counterexample:
  "fst (post_or_put_all scripted_env demo_client
          [patient_item ''a.json'', patient_item ''b.json''] patient_url ''post''
          (init_st [Inl ConnectionError, Inr created])) = Inl ConnectionError
   \<and> map rq_json (calls (snd (post_or_put_all scripted_env demo_client
          [patient_item ''a.json'', patient_item ''b.json''] patient_url ''post''
          (init_st [Inl ConnectionError, Inr created]))))
       = [Some (rd_content (patient_item ''a.json''))]"
  by (simp add: request_defs bulk_defs)

section \<open>Cascade delete\<close>

lemma delete_each_calls:
  "delete_each env c a urls s = (Inr oks, s') \<Longrightarrow>
   length oks = length urls \<and> calls s' = calls s @ map (delete_request c a) urls"
proof (induction urls arbitrary: s oks)
  case Nil
  then show ?case by simp
next
  case (Cons url urls)
  let ?run = "send_request env c ''delete'' (Some url) (no_kwargs\<lparr>kw_auth := a\<rparr>)
                (log Debug (''Deleting '' @ url) s)"
  obtain r s1 where run: "?run = (r, s1)" by (cases ?run)
  from send_request_calls [of env c "''delete''" "Some url" "no_kwargs\<lparr>kw_auth := a\<rparr>"
      "log Debug (''Deleting '' @ url) s"] run
  have c1: "calls s1 = calls s @ [delete_request c a url]"
    by (simp add: calls_log delete_request_def)
  show ?case
  proof (cases r)
    case (Inl e)
    with run Cons.prems show ?thesis by simp
  next
    case (Inr o1)
    obtain ok res where o1: "o1 = (ok, res)" by (cases o1)
    obtain r2 s2 where rest: "delete_each env c a urls s1 = (r2, s2)"
      by (cases "delete_each env c a urls s1")
    show ?thesis
    proof (cases r2)
      case (Inl e)
      with run Inr o1 rest Cons.prems show ?thesis by simp
    next
      case r2: (Inr oks2)
      with run Inr o1 rest Cons.prems have eq: "oks = ok # oks2" "s' = s2" by simp_all
      from Cons.IH [of s1 oks2] rest r2 eq
      have "length oks2 = length urls \<and> calls s2 = calls s1 @ map (delete_request c a) urls"
        by simp
      with eq c1 show ?thesis by simp
    qed
  qed
qed

lemma delete_each_raise_calls:
  "delete_each env c a urls s = (Inl e, s') \<Longrightarrow>
   \<exists>n<length urls. calls s' = calls s @ map (delete_request c a) (take (Suc n) urls)"
proof (induction urls arbitrary: s)
  case Nil
  then show ?case by simp
next
  case (Cons url urls)
  let ?run = "send_request env c ''delete'' (Some url) (no_kwargs\<lparr>kw_auth := a\<rparr>)
                (log Debug (''Deleting '' @ url) s)"
  obtain r s1 where run: "?run = (r, s1)" by (cases ?run)
  from send_request_calls [of env c "''delete''" "Some url" "no_kwargs\<lparr>kw_auth := a\<rparr>"
      "log Debug (''Deleting '' @ url) s"] run
  have c1: "calls s1 = calls s @ [delete_request c a url]"
    by (simp add: calls_log delete_request_def)
  show ?case
  proof (cases r)
    case (Inl e1)
    with run Cons.prems have "s' = s1" by simp
    with c1 have "calls s' = calls s @ map (delete_request c a) (take (Suc 0) (url # urls))"
      by simp
    then show ?thesis by blast
  next
    case (Inr o1)
    obtain ok res where o1: "o1 = (ok, res)" by (cases o1)
    obtain r2 s2 where rest: "delete_each env c a urls s1 = (r2, s2)"
      by (cases "delete_each env c a urls s1")
    with run Inr o1 Cons.prems have "delete_each env c a urls s1 = (Inl e, s')"
      by (cases r2) simp_all
    from Cons.IH [OF this] obtain n where n: "n < length urls"
      and c2: "calls s' = calls s1 @ map (delete_request c a) (take (Suc n) urls)"
      by blast
    from c1 c2 have "calls s' = calls s @ map (delete_request c a) (take (Suc (Suc n)) (url # urls))"
      by simp
    moreover from n have "Suc n < length (url # urls)" by simp
    ultimately show ?thesis by blast
  qed
qed

lemma delete_targets_Cons_outcome:
  "resource_of entry = Some rs \<Longrightarrow> is_outcome rs \<Longrightarrow>
   delete_targets env c (entry # es) = delete_targets env c es"
  by (simp add: delete_targets_def List.map_filter_simps)

lemma delete_targets_Cons_other:
  "resource_of entry = Some rs \<Longrightarrow> \<not> is_outcome rs \<Longrightarrow>
   delete_targets env c (entry # es) = delete_url env c rs # delete_targets env c es"
  by (simp add: delete_targets_def List.map_filter_simps)

lemma resource_of_getitem:
  "resource_of entry = Some rs \<Longrightarrow> py_getitem entry ''resource'' = Inr (PDict rs)"
  by (cases entry) (auto simp: resource_of_def split: option.splits pyval.splits)

lemma delete_loop_outcome:
  "resource_of entry = Some rs \<Longrightarrow> is_outcome rs \<Longrightarrow>
   delete_loop env c a (entry # es) ok0 s = delete_loop env c a es ok0 s"
  by (simp add: resource_of_getitem is_outcome_def)

lemma delete_loop_other:
  assumes "resource_of entry = Some rs" and "\<not> is_outcome rs"
    and "map_of rs ''resourceType'' \<noteq> None" and "map_of rs ''id'' \<noteq> None"
  shows "delete_loop env c a (entry # es) ok0 s =
     (case send_request env c ''delete'' (Some (delete_url env c rs)) (no_kwargs\<lparr>kw_auth := a\<rparr>)
             (log Debug (''Deleting '' @ delete_url env c rs) s) of
        (Inl e, s1) \<Rightarrow> (Inl e, s1)
      | (Inr (ok, res), s1) \<Rightarrow> delete_loop env c a es (ok \<and> ok0) s1)"
proof -
  from assms(3,4) obtain t i where t: "map_of rs ''resourceType'' = Some t"
    and i: "map_of rs ''id'' = Some i" by auto
  from assms(2) t have "t \<noteq> PStr ''OperationOutcome''" by (simp add: is_outcome_def)
  with t i show ?thesis
    by (simp add: resource_of_getitem [OF assms(1)] delete_url_def Let_def)
qed

lemma delete_loop_each:
  "list_all well_formed_entry es \<Longrightarrow>
   delete_loop env c a es ok0 s =
     (case delete_each env c a (delete_targets env c es) s of
        (Inl e, s') \<Rightarrow> (Inl e, s')
      | (Inr oks, s') \<Rightarrow> (Inr (ok0 \<and> list_all id oks), s'))"
proof (induction es arbitrary: ok0 s)
  case Nil
  then show ?case by (simp add: delete_targets_def List.map_filter_simps)
next
  case (Cons entry es)
  from Cons.prems obtain rs where rs: "resource_of entry = Some rs"
    and shape: "is_outcome rs \<or> (map_of rs ''resourceType'' \<noteq> None \<and> map_of rs ''id'' \<noteq> None)"
    by (auto simp: well_formed_entry_def split: option.splits)
  from Cons.prems have rest: "list_all well_formed_entry es" by simp
  show ?case
  proof (cases "is_outcome rs")
    case True
    with rs Cons.IH [OF rest] show ?thesis
      by (simp add: delete_loop_outcome delete_targets_Cons_outcome del: delete_loop.simps)
  next
    case False
    with shape have keys: "map_of rs ''resourceType'' \<noteq> None" "map_of rs ''id'' \<noteq> None"
      by simp_all
    show ?thesis
      unfolding delete_loop_other [OF rs False keys] delete_targets_Cons_other [OF rs False]
      by (auto simp: Cons.IH [OF rest] split: prod.splits sum.splits)
  qed
qed

text \<open>
  Claim C7, as amended. Let the fetch of \<^verbatim>\<open>delete_all\<close> return with outcome \<open>ok\<close> and
  an object body whose entries \<open>es\<close> are well formed (each carries a resource that is an
  \<^verbatim>\<open>OperationOutcome\<close> or has a type and an id). Then \<^verbatim>\<open>delete_all\<close> is the cascade
  over the URLs of the entries that are not \<^verbatim>\<open>OperationOutcome\<close> (none when the fetch
  failed), each URL built from the base URL, the resource's type and its id; no call is
  made for an \<^verbatim>\<open>OperationOutcome\<close> entry. When no delete raises, the cascade has one
  outcome per URL and has made exactly one DELETE call per URL, in order and after the
  fetch, whatever the outcomes of the earlier deletes, and the result is the conjunction
  of \<open>ok\<close> and of all delete outcomes. When a delete raises a hard error, \<^verbatim>\<open>delete_all\<close>
  raises it, and the DELETE calls made are those of the URLs up to the one that raised:
  the entries after it get none.
\<close>

theorem delete_all_cascade:
  assumes "send_request env c ''get'' (Some endpoint) (fetch_kwargs c kw)
             (log Info ''Begin deleting resources ...'' s) = (Inr (ok, res), s1)"
    and "res_response res = PDict d"
    and "fetched_entries d = Some es"
    and "list_all well_formed_entry es"
  shows "delete_all env c endpoint kw s =
           (case delete_each env c (kw_auth (fetch_kwargs c kw))
                   (if ok then delete_targets env c es else []) (fetched_state env res s1) of
              (Inl e, s') \<Rightarrow> (Inl e, s')
            | (Inr oks, s') \<Rightarrow> (Inr (ok \<and> list_all id oks), s'))
       \<and> (\<forall>oks s'. delete_each env c (kw_auth (fetch_kwargs c kw))
                      (if ok then delete_targets env c es else []) (fetched_state env res s1)
                      = (Inr oks, s') \<longrightarrow>
             length oks = length (if ok then delete_targets env c es else [])
             \<and> calls s' = calls s1 @ map (delete_request c (kw_auth (fetch_kwargs c kw)))
                                        (if ok then delete_targets env c es else []))
       \<and> (\<forall>e s'. delete_each env c (kw_auth (fetch_kwargs c kw))
                      (if ok then delete_targets env c es else []) (fetched_state env res s1)
                      = (Inl e, s') \<longrightarrow>
             (\<exists>n<length (if ok then delete_targets env c es else []).
                calls s' = calls s1 @ map (delete_request c (kw_auth (fetch_kwargs c kw)))
                             (take (Suc n) (if ok then delete_targets env c es else []))))"
proof (intro conjI allI impI)
  have entries: "py_get (PDict d) ''entry'' (PList []) = Inr (PList es)"
    using assms(3) by (auto simp: fetched_entries_def split: option.splits pyval.splits)
  define n where "n = (case map_of d ''total'' of None \<Rightarrow> PNone | Some v \<Rightarrow> v)"
  have total: "py_get (PDict d) ''total'' PNone = Inr n"
    by (simp add: n_def)
  show "delete_all env c endpoint kw s =
           (case delete_each env c (kw_auth (fetch_kwargs c kw))
                   (if ok then delete_targets env c es else []) (fetched_state env res s1) of
              (Inl e, s') \<Rightarrow> (Inl e, s')
            | (Inr oks, s') \<Rightarrow> (Inr (ok \<and> list_all id oks), s'))"
  proof (cases ok)
    case False
    with assms(1,2) total show ?thesis
      by (simp add: delete_all_def Let_def fetch_kwargs_def fetched_state_def
          del: py_get.simps)
  next
    case True
    with assms(1,2) entries total show ?thesis
      by (auto simp add: delete_all_def Let_def fetch_kwargs_def fetched_state_def
          delete_loop_each [OF assms(4)] simp del: py_get.simps
          split: prod.splits sum.splits)
  qed
next
  fix oks s'
  assume "delete_each env c (kw_auth (fetch_kwargs c kw))
            (if ok then delete_targets env c es else []) (fetched_state env res s1) = (Inr oks, s')"
  from delete_each_calls [OF this]
  show "length oks = length (if ok then delete_targets env c es else [])" by simp
  have "calls (fetched_state env res s1) = calls s1"
    by (simp add: fetched_state_def calls_log split: sum.splits)
  with delete_each_calls [OF \<open>delete_each env c (kw_auth (fetch_kwargs c kw))
            (if ok then delete_targets env c es else []) (fetched_state env res s1) = (Inr oks, s')\<close>]
  show "calls s' = calls s1 @ map (delete_request c (kw_auth (fetch_kwargs c kw)))
                                        (if ok then delete_targets env c es else [])"
    by simp
next
  fix e s'
  assume "delete_each env c (kw_auth (fetch_kwargs c kw))
            (if ok then delete_targets env c es else []) (fetched_state env res s1) = (Inl e, s')"
  have same: "calls (fetched_state env res s1) = calls s1"
    by (simp add: fetched_state_def calls_log split: sum.splits)
  from delete_each_raise_calls [OF \<open>delete_each env c (kw_auth (fetch_kwargs c kw))
            (if ok then delete_targets env c es else []) (fetched_state env res s1) = (Inl e, s')\<close>]
  obtain n where n: "n < length (if ok then delete_targets env c es else [])"
    and sent: "calls s' = calls (fetched_state env res s1)
           @ map (delete_request c (kw_auth (fetch_kwargs c kw)))
               (take (Suc n) (if ok then delete_targets env c es else []))"
    by blast
  from sent have "calls s' = calls s1 @ map (delete_request c (kw_auth (fetch_kwargs c kw)))
                   (take (Suc n) (if ok then delete_targets env c es else []))"
    unfolding same .
  with n show "\<exists>n<length (if ok then delete_targets env c es else []).
      calls s' = calls s1 @ map (delete_request c (kw_auth (fetch_kwargs c kw)))
                   (take (Suc n) (if ok then delete_targets env c es else []))"
    by blast
qed

text \<open>
  When the fetch is classified as a failure and its body is an object,
  \<^verbatim>\<open>delete_all\<close> returns False and makes no call after the fetch.
\<close>

lemma delete_all_fetch_failed:
  assumes "send_request env c ''get'' (Some endpoint) (fetch_kwargs c kw)
             (log Info ''Begin deleting resources ...'' s) = (Inr (False, res), s1)"
    and "res_response res = PDict d"
  shows "delete_all env c endpoint kw s = (Inr False, fetched_state env res s1)
       \<and> calls (fetched_state env res s1) = calls s1"
  using assms
  by (simp add: delete_all_def Let_def fetch_kwargs_def fetched_state_def calls_log)

lemmas cascade_defs = delete_all_def fetch_kwargs_def fetched_state_def delete_targets_def
  List.map_filter_simps resource_of_def is_outcome_def delete_url_def py_str_def
  delete_request_def patient_entries_def patient_bundle_fields_def patient_bundle_def
  patients_def fetched_entries_def well_formed_entry_def

text \<open>
  The theorem at a bundle of patient 1, an \<^verbatim>\<open>OperationOutcome\<close> and patient 2, where
  the first delete is answered 404 and the second 204: the result is False and the
  calls are the GET and the two DELETEs.
\<close>

theorem delete_all_cascade_witness:
  "fst (delete_all scripted_env demo_client patients no_kwargs
          (init_st [Inr (json_response 200 patient_bundle), Inr (json_response 404 (PDict [])),
                    Inr (text_response 204 [])])) = Inr False
   \<and> map rq_method (calls (snd (delete_all scripted_env demo_client patients no_kwargs
          (init_st [Inr (json_response 200 patient_bundle), Inr (json_response 404 (PDict [])),
                    Inr (text_response 204 [])]))))
       = [''get'', ''delete'', ''delete'']
   \<and> map rq_url (calls (snd (delete_all scripted_env demo_client patients no_kwargs
          (init_st [Inr (json_response 200 patient_bundle), Inr (json_response 404 (PDict [])),
                    Inr (text_response 204 [])]))))
       = [Some ''http://localhost:8000/Patient'', Some ''http://localhost:8000/Patient/1'',
          Some ''http://localhost:8000/Patient/2'']"
proof -
  let ?s = "init_st [Inr (json_response 200 patient_bundle), Inr (json_response 404 (PDict [])),
                    Inr (text_response 204 [])]"
  let ?res = "result_of scripted_env (json_response 200 patient_bundle)"
  let ?fetch = "send_request scripted_env demo_client ''get'' (Some patients)
                  (fetch_kwargs demo_client no_kwargs)
                  (log Info ''Begin deleting resources ...'' ?s)"
  let ?a = "kw_auth (fetch_kwargs demo_client no_kwargs)"
  let ?targets = "delete_targets scripted_env demo_client patient_entries"
  let ?each = "delete_each scripted_env demo_client ?a (if True then ?targets else [])
                 (fetched_state scripted_env ?res (snd ?fetch))"
  have "fst ?fetch = Inr (True, ?res)"
    by (simp add: request_defs cascade_defs result_of_def)
  then have fetch: "?fetch = (Inr (True, ?res), snd ?fetch)"
    by (simp add: prod_eq_iff)
  have body: "res_response ?res = PDict patient_bundle_fields"
    by (simp add: result_of_def response_content_def json_response_def patient_bundle_def)
  have entries: "fetched_entries patient_bundle_fields = Some patient_entries"
    by (simp add: fetched_entries_def patient_bundle_fields_def)
  have wf: "list_all well_formed_entry patient_entries"
    by (simp add: patient_entries_def well_formed_entry_def resource_of_def is_outcome_def)
  have targets: "?targets = [''http://localhost:8000/Patient/1'', ''http://localhost:8000/Patient/2'']"
    by (simp add: cascade_defs fmt_opt_def demo_client_def FhirApiClient_def)
  have "fst ?each = Inr [False, True]"
    unfolding targets by (simp add: request_defs cascade_defs result_of_def)
  then obtain s' where each: "?each = (Inr [False, True], s')"
    by (cases ?each) auto
  from delete_all_cascade [OF fetch body entries wf] each
  have run: "delete_all scripted_env demo_client patients no_kwargs ?s = (Inr False, s')"
    and sent: "calls s' = calls (snd ?fetch) @ map (delete_request demo_client ?a) ?targets"
    by simp_all
  have first: "calls (snd ?fetch) = [build_request demo_client ''get'' (Some patients)
                                      (fetch_kwargs demo_client no_kwargs)]"
    by (simp add: send_request_calls calls_log init_st_def)
  from run sent first show ?thesis
    by (simp add: targets delete_request_def build_request_def lower_def lower_char_def
        ascii_lowercase_def ascii_uppercase_def patients_def Let_def)
qed

text \<open>
  Claim C7 as it is written fails: the bundle holds patient 1, an \<^verbatim>\<open>OperationOutcome\<close>
  and patient 2, all well formed, and the DELETE of patient 1 meets a connection error.
  \<^verbatim>\<open>delete_all\<close> raises it, and patient 2 gets no DELETE.
\<close>

theorem delete_all_hard_error_counterexample:
  "list_all well_formed_entry patient_entries
   \<and> fst (delete_all scripted_env demo_client patients no_kwargs
            (init_st [Inr (json_response 200 patient_bundle), Inl ConnectionError,
                      Inr (text_response 204 [])])) = Inl ConnectionError
   \<and> map rq_url (calls (snd (delete_all scripted_env demo_client patients no_kwargs
            (init_st [Inr (json_response 200 patient_bundle), Inl ConnectionError,
                      Inr (text_response 204 [])]))))
       = [Some ''http://localhost:8000/Patient'', Some ''http://localhost:8000/Patient/1'']"
  by (simp add: request_defs cascade_defs)

text \<open>
  Claim C6. The fetch is answered 404 with the text \<^verbatim>\<open>Not Found\<close>, which is not JSON:
  \<^verbatim>\<open>send_request\<close> classifies it as a failure and returns the text as the body, and
  \<^verbatim>\<open>delete_all\<close> then raises AttributeError at \<^verbatim>\<open>resp_content.get("total")\<close>, before
  it tests the outcome of the fetch, instead of returning False.
\<close>

theorem delete_all_failed_fetch_raises:
  "fst (send_request scripted_env demo_client ''get'' (Some patients)
          (fetch_kwargs demo_client no_kwargs)
          (log Info ''Begin deleting resources ...''
             (init_st [Inr (text_response 404 ''Not Found'')])))
     = Inr (False, result_of scripted_env (text_response 404 ''Not Found''))
   \<and> fst (delete_all scripted_env demo_client patients no_kwargs
            (init_st [Inr (text_response 404 ''Not Found'')])) = Inl AttributeError"
  by (simp add: request_defs cascade_defs result_of_def)

section \<open>Status probe\<close>

lemma check_service_status_result:
  assumes "net env probe_session (world s) (probe_request url kw) = (a, w')"
  shows "fst (check_service_status env url ex kw s) =
           (case a of
              Inl e \<Rightarrow> if e = ConnectionError then (if ex then Inl (SystemExit 1) else Inr True)
                       else Inl e
            | Inr r \<Rightarrow> if ex \<and> 300 \<le> status_code r then Inl (SystemExit 1)
                       else Inr (300 \<le> status_code r))"
  using assms
  by (simp add: check_service_status_def call_session_def probe_request_def
      supplied_headers_def Let_def split: sum.splits)

lemma check_service_status_calls:
  "calls (snd (check_service_status env url ex kw s)) = calls s @ [probe_request url kw]"
  by (auto simp add: check_service_status_def call_session_def probe_request_def
      supplied_headers_def Let_def log_def split: sum.splits prod.splits)

lemma client_check_service_status_result:
  "fst (client_check_service_status env c ex log_msg s) =
     (case fst (check_service_status env (client_probe_url c) False (client_probe_kwargs c) s) of
        Inl e \<Rightarrow> Inl e
      | Inr down \<Rightarrow> if down \<and> ex then Inl (SystemExit 1) else Inr ())"
  by (simp add: client_check_service_status_def client_probe_url_def client_probe_kwargs_def
      Let_def split: sum.splits prod.splits)

lemma retrying_from_attempts:
  "snd (retrying_from wire fl t c r w rq) \<le> Suc t \<and> 1 \<le> snd (retrying_from wire fl t c r w rq)"
proof (induction t arbitrary: c r w)
  case 0
  show ?case by (auto split: prod.splits attempt.splits)
next
  case (Suc t)
  have "snd (apsnd Suc (retrying_from wire fl t c' r' w' rq)) \<le> Suc (Suc t)
        \<and> 1 \<le> snd (apsnd Suc (retrying_from wire fl t c' r' w' rq))" for c' r' w'
    using Suc [of c' r' w'] by (simp add: snd_apsnd)
  then show ?case
    by (auto split: prod.splits attempt.splits nat.splits simp del: apsnd_conv)
qed

lemma probe_attempts:
  "attempts wire probe_session w rq \<le> 2 \<and> 1 \<le> attempts wire probe_session w rq"
  using retrying_from_attempts [of wire default_status_forcelist 1 1 10 w rq]
  by (simp add: attempts_def retrying_run_def probe_session_def requests_retry_session_def)

lemma check_service_status_verdict:
  "fst (check_service_status env url ex kw s) = probe_verdict ex (probe_answer env url kw s)"
proof -
  obtain a w' where a: "net env probe_session (world s) (probe_request url kw) = (a, w')"
    by (cases "net env probe_session (world s) (probe_request url kw)")
  then have "probe_answer env url kw s = a" by (simp add: probe_answer_def)
  then show ?thesis
    by (auto simp add: check_service_status_result [OF a] probe_verdict_def is_down_def
        split: sum.splits)
qed

lemma check_service_status_logs:
  "logs (snd (check_service_status env url ex kw s))
     = logs s @ probe_diagnostic url (probe_answer env url kw s)
       @ (if is_down (probe_answer env url kw s) \<and> ex then [(Info, ''Exiting program!'')] else [])"
  by (auto simp add: check_service_status_def call_session_def probe_request_def
      probe_answer_def probe_diagnostic_def is_down_def supplied_headers_def Let_def log_def
      split: sum.splits prod.splits)

lemma client_check_service_status_verdict:
  "fst (client_check_service_status env c ex log_msg s)
     = client_verdict ex (probe_answer env (client_probe_url c) (client_probe_kwargs c) s)"
  by (auto simp add: client_check_service_status_result check_service_status_verdict
      probe_verdict_def client_verdict_def split: sum.splits)

lemma client_check_service_status_logs:
  "logs (snd (client_check_service_status env c ex log_msg s))
     = logs (snd (check_service_status env (client_probe_url c) False (client_probe_kwargs c) s))
       @ (if is_down (probe_answer env (client_probe_url c) (client_probe_kwargs c) s)
          then [(Error, fmt_opt log_msg)] else [])"
proof -
  let ?run = "check_service_status env (client_probe_url c) False (client_probe_kwargs c) s"
  let ?a = "probe_answer env (client_probe_url c) (client_probe_kwargs c) s"
  obtain r s1 where run: "?run = (r, s1)" by (cases ?run)
  with check_service_status_verdict [of env "client_probe_url c" False "client_probe_kwargs c" s]
  have r: "r = probe_verdict False ?a" by simp
  show ?thesis
    using run r
    by (auto simp add: client_check_service_status_def client_probe_url_def
        client_probe_kwargs_def probe_verdict_def Let_def log_def split: sum.splits if_splits)
qed

lemma client_check_service_status_calls:
  "calls (snd (client_check_service_status env c ex log_msg s))
     = calls s @ [probe_request (client_probe_url c) (client_probe_kwargs c)]"
proof -
  let ?run = "check_service_status env (client_probe_url c) False (client_probe_kwargs c) s"
  obtain r s1 where run: "?run = (r, s1)" by (cases ?run)
  with check_service_status_calls [of env "client_probe_url c" False "client_probe_kwargs c" s]
  have "calls s1 = calls s @ [probe_request (client_probe_url c) (client_probe_kwargs c)]"
    by simp
  with run show ?thesis
    by (auto simp add: client_check_service_status_def client_probe_url_def
        client_probe_kwargs_def Let_def calls_log split: sum.splits if_splits)
qed

text \<open>
  Claim C9, as amended. For every transport: the result of the probe of utils.py is
  fixed by the answer of its one call on the session, whether or not the exit is
  requested (the client's probe makes the same single call). It is \<^verbatim>\<open>exit(1)\<close> when the service is down (the call raised a connection
  error or returned a status code of 300 or more) and the exit is requested, True when
  it is down and no exit is requested, False when it is up, and the exception of the
  transport otherwise; the probe logs its diagnostic about the answer and, before an
  exit, the line that announces it. The client's probe ends the same way, with the
  caller's message logged at level error after the call whenever the service is down, so
  before the exit. Neither probe exits in any other case. The session of the probe has
  a budget of one retry (\<^verbatim>\<open>total=1, connect=1\<close>): under the retrying transport the call
  makes one or two attempts.
\<close>

theorem check_service_status_probe:
  "fst (check_service_status env url ex kw s) = probe_verdict ex (probe_answer env url kw s)
   \<and> calls (snd (check_service_status env url ex kw s)) = calls s @ [probe_request url kw]
   \<and> logs (snd (check_service_status env url ex kw s))
       = logs s @ probe_diagnostic url (probe_answer env url kw s)
         @ (if is_down (probe_answer env url kw s) \<and> ex then [(Info, ''Exiting program!'')]
            else [])
   \<and> fst (client_check_service_status env c ex log_msg s)
       = client_verdict ex (probe_answer env (client_probe_url c) (client_probe_kwargs c) s)
   \<and> calls (snd (client_check_service_status env c ex log_msg s))
       = calls s @ [probe_request (client_probe_url c) (client_probe_kwargs c)]
   \<and> logs (snd (client_check_service_status env c ex log_msg s))
       = logs (snd (check_service_status env (client_probe_url c) False
                      (client_probe_kwargs c) s))
         @ (if is_down (probe_answer env (client_probe_url c) (client_probe_kwargs c) s)
            then [(Error, fmt_opt log_msg)] else [])
   \<and> (\<not> (is_down (probe_answer env url kw s) \<and> ex) \<and> \<not> is_exit (probe_answer env url kw s) \<longrightarrow>
        \<not> is_exit (fst (check_service_status env url ex kw s)))
   \<and> (\<not> (is_down (probe_answer env (client_probe_url c) (client_probe_kwargs c) s) \<and> ex)
        \<and> \<not> is_exit (probe_answer env (client_probe_url c) (client_probe_kwargs c) s) \<longrightarrow>
        \<not> is_exit (fst (client_check_service_status env c ex log_msg s)))
   \<and> 1 \<le> attempts wire probe_session w rq \<and> attempts wire probe_session w rq \<le> 2"
proof -
  let ?a = "probe_answer env url kw s"
  let ?b = "probe_answer env (client_probe_url c) (client_probe_kwargs c) s"
  have 6: "\<not> (is_down ?a \<and> ex) \<and> \<not> is_exit ?a \<longrightarrow>
        \<not> is_exit (fst (check_service_status env url ex kw s))"
    by (auto simp add: check_service_status_verdict probe_verdict_def is_exit_def
        split: sum.splits py_error.splits)
  have 7: "\<not> (is_down ?b \<and> ex) \<and> \<not> is_exit ?b \<longrightarrow>
        \<not> is_exit (fst (client_check_service_status env c ex log_msg s))"
    by (auto simp add: client_check_service_status_verdict client_verdict_def is_exit_def
        split: sum.splits py_error.splits)
  from 6 7 check_service_status_verdict [of env url ex kw s]
    check_service_status_calls [of env url ex kw s]
    check_service_status_logs [of env url ex kw s]
    client_check_service_status_verdict [of env c ex log_msg s]
    client_check_service_status_calls [of env c ex log_msg s]
    client_check_service_status_logs [of env c ex log_msg s]
    probe_attempts [of wire w rq]
  show ?thesis by blast
qed

text \<open>
  The theorem at four runs: a refused connection with the exit requested ends in
  \<^verbatim>\<open>exit(1)\<close> after both diagnostics are logged, an answer 200 with the exit requested
  returns (False from the probe of utils.py), and an answer 404 is reported as down.
\<close>

theorem check_service_status_probe_witness:
  "fst (client_check_service_status scripted_env demo_client True (Some ''FHIR server is down'')
          (init_st [Inl ConnectionError])) = Inl (SystemExit 1)
   \<and> logs (snd (client_check_service_status scripted_env demo_client True
          (Some ''FHIR server is down'') (init_st [Inl ConnectionError])))
       = [(Error, ''Connection error! Is service at http://localhost:8000 up and running?''),
          (Error, ''FHIR server is down'')]
   \<and> fst (client_check_service_status scripted_env demo_client True
          (Some ''FHIR server is down'') (init_st [Inr (json_response 200 (PDict []))])) = Inr ()
   \<and> fst (check_service_status scripted_env patient_url True no_kwargs
          (init_st [Inr (json_response 200 (PDict []))])) = Inr False
   \<and> fst (check_service_status scripted_env patient_url False no_kwargs
          (init_st [Inr (text_response 404 ''Not Found'')])) = Inr True"
proof -
  let ?msg = "Some ''FHIR server is down''"
  let ?refused = "init_st [Inl ConnectionError] :: (py_error + response) list st"
  let ?up = "init_st [Inr (json_response 200 (PDict []))]"
  let ?missing = "init_st [Inr (text_response 404 ''Not Found'')]"
  have ans: "probe_answer scripted_env url kw (init_st (a # rest)) = a" for url kw a rest
    by (simp add: probe_answer_def scripted_env_def scripted_def init_st_def)
  have url: "client_probe_url demo_client = Some ''http://localhost:8000''"
    by (simp add: client_probe_url_def demo_client_def FhirApiClient_def truthy_opt_def)
  from check_service_status_probe [where wire = scripted_wire and w = "[]"
      and rq = "probe_request patient_url no_kwargs" and env = scripted_env and c = demo_client and ex = True
      and log_msg = ?msg and s = ?refused and url = "client_probe_url demo_client"
      and kw = "client_probe_kwargs demo_client"]
  have "fst (client_check_service_status scripted_env demo_client True ?msg ?refused)
          = client_verdict True (Inl ConnectionError)"
    and "logs (snd (client_check_service_status scripted_env demo_client True ?msg ?refused))
          = logs (snd (check_service_status scripted_env (client_probe_url demo_client) False
                         (client_probe_kwargs demo_client) ?refused))
            @ (if is_down (Inl ConnectionError) then [(Error, fmt_opt ?msg)] else [])"
    by (simp_all add: ans)
  moreover from check_service_status_probe [where wire = scripted_wire and w = "[]"
      and rq = "probe_request patient_url no_kwargs" and env = scripted_env and ex = False
      and s = ?refused and url = "client_probe_url demo_client"
      and kw = "client_probe_kwargs demo_client"]
  have "logs (snd (check_service_status scripted_env (client_probe_url demo_client) False
                         (client_probe_kwargs demo_client) ?refused))
          = logs ?refused @ probe_diagnostic (client_probe_url demo_client) (Inl ConnectionError)"
    by (simp add: ans)
  ultimately have down:
    "fst (client_check_service_status scripted_env demo_client True ?msg ?refused)
       = Inl (SystemExit 1)
     \<and> logs (snd (client_check_service_status scripted_env demo_client True ?msg ?refused))
       = [(Error, ''Connection error! Is service at http://localhost:8000 up and running?''),
          (Error, ''FHIR server is down'')]"
    by (simp add: client_verdict_def is_down_def probe_diagnostic_def url fmt_opt_def init_st_def)
  from check_service_status_probe [where wire = scripted_wire and w = "[]"
      and rq = "probe_request patient_url no_kwargs" and env = scripted_env and c = demo_client and ex = True
      and log_msg = ?msg and s = ?up and url = patient_url and kw = no_kwargs]
  have up: "fst (client_check_service_status scripted_env demo_client True ?msg ?up) = Inr ()
     \<and> fst (check_service_status scripted_env patient_url True no_kwargs ?up) = Inr False"
    by (simp add: ans client_verdict_def probe_verdict_def is_down_def json_response_def)
  from check_service_status_probe [where wire = scripted_wire and w = "[]"
      and rq = "probe_request patient_url no_kwargs" and env = scripted_env and ex = False
      and s = ?missing and url = patient_url and kw = no_kwargs]
  have missing: "fst (check_service_status scripted_env patient_url False no_kwargs ?missing)
      = Inr True"
    by (simp add: ans probe_verdict_def is_down_def text_response_def)
  from down up missing show ?thesis by blast
qed

text \<open>
  Claim C9 as it is written fails: the first attempt of the GET is refused, the one
  retry that \<^verbatim>\<open>total=1, connect=1\<close> allows is answered 200, and the probe reports the
  service as up after two attempts.
\<close>

theorem check_service_status_retry_counterexample:
  "fst (scripted_wire [Refused, Reply (json_response 200 (PDict []))]
          (probe_request patient_url no_kwargs)) = Refused
   \<and> attempts scripted_wire probe_session [Refused, Reply (json_response 200 (PDict []))]
        (probe_request patient_url no_kwargs) = 2
   \<and> fst (check_service_status retrying_env patient_url False no_kwargs
            (init_st [Refused, Reply (json_response 200 (PDict []))])) = Inr False"
  by (simp add: check_service_status_def call_session_def retrying_env_def retrying_def
      attempts_def retrying_run_def probe_session_def requests_retry_session_def
      default_status_forcelist_def scripted_wire_def init_st_def json_response_def Let_def
      log_def probe_request_def)

end
